theory Spec2Isabelle
  imports Main "HOL-Library.Word" "HOL-Library.Sublist" "HOL-Library.Code_Target_Nat"
begin

unbundle bit_operations_syntax

section \<open>JavaScript values used by the chat route\<close>

text \<open>
  The route handlers (\<^verbatim>\<open>app/api/chat/route.ts\<close>, in its payload-addressed and its
  cookie-addressed variant) are TypeScript. A JavaScript string is a sequence of UTF-16
  code units, and \<^verbatim>\<open>s.length\<close> counts code units; the model keeps that, so the
  magnifying-glass emoji of the success template is the two units D83D DD0D. A
  \<^verbatim>\<open>Buffer\<close> or \<^verbatim>\<open>Uint8Array\<close> is a list of bytes.
\<close>

type_synonym utf16 = "16 word"
type_synonym jsstring = "utf16 list"
type_synonym byte = "8 word"

text \<open>An ASCII literal of the source, as code units.\<close>

definition str :: "string \<Rightarrow> jsstring" where
  "str s = map of_char s"

text \<open>\<^verbatim>\<open>s.startsWith(p)\<close> and \<^verbatim>\<open>s.includes(t)\<close>.\<close>

definition startsWith :: "jsstring \<Rightarrow> jsstring \<Rightarrow> bool" where
  "startsWith s p = prefix p s"

fun str_includes :: "jsstring \<Rightarrow> jsstring \<Rightarrow> bool" where
  "str_includes [] t = (t = [])"
| "str_includes (c # cs) t = (if prefix t (c # cs) then True else str_includes cs t)"

text \<open>
  Truthiness of an optional string (\<^verbatim>\<open>!ct\<close>, \<^verbatim>\<open>a || b\<close>): \<^verbatim>\<open>undefined\<close>,
  \<^verbatim>\<open>null\<close> and the empty string are falsy.
\<close>

fun truthy :: "jsstring option \<Rightarrow> bool" where
  "truthy None = False"
| "truthy (Some s) = (s \<noteq> [])"

text \<open>
  \<^verbatim>\<open>s.split(sep)\<close> for a separator of one code unit (the routes split on a line feed,
  on \<^verbatim>\<open>T\<close> and on \<^verbatim>\<open>-\<close>): the pieces between the separators, always at least one.
  \<^verbatim>\<open>xs.join(sep)\<close> of pieces that are already strings.
\<close>

fun str_split :: "jsstring \<Rightarrow> utf16 \<Rightarrow> jsstring list" where
  "str_split [] sep = [[]]"
| "str_split (c # cs) sep =
     (if c = sep then [] # str_split cs sep
      else (case str_split cs sep of [] \<Rightarrow> [[c]] | l # ls \<Rightarrow> (c # l) # ls))"

fun str_join :: "jsstring \<Rightarrow> jsstring list \<Rightarrow> jsstring" where
  "str_join sep [] = []"
| "str_join sep [x] = x"
| "str_join sep (x # y # ys) = x @ sep @ str_join sep (y # ys)"

definition LF :: utf16 where
  "LF = 0x0A"

text \<open>
  Number to string, for the integers the routes print digit for digit (a length, a
  timestamp, a status, a count within \<open>2 ^ 53\<close>): plain decimal digits.
\<close>

fun digits :: "nat \<Rightarrow> jsstring" where
  "digits n = (if n < 10 then [of_nat (48 + n)] else digits (n div 10) @ [of_nat (48 + n mod 10)])"

declare digits.simps [simp del]

definition int_to_string :: "int \<Rightarrow> jsstring" where
  "int_to_string i = (if i < 0 then str ''-'' @ digits (nat (- i)) else digits (nat i))"

subsection \<open>JSON values and JSON.stringify\<close>

text \<open>
  A parsed JSON value. An object is the list of its own properties in insertion order
  (keys distinct, as \<^verbatim>\<open>JSON.parse\<close> leaves them). A number is one of two kinds. An
  integer from \<open>- 2 ^ 53\<close> up to \<open>2 ^ 53 - 1\<close> is a signed word of 54 bits; these are
  the numbers JavaScript prints digit for digit. Any other number (a fraction, or an
  integer outside that range, which JavaScript rounds and may print with an exponent)
  is held as the text \<^verbatim>\<open>Number.prototype.toString\<close> gives for it. The length of a
  JavaScript string is below \<open>2 ^ 53\<close>, so it is a number of the first kind.
\<close>

type_synonym safe_int = "54 word"

datatype json =
    JNull
  | JBool bool
  | JNum safe_int
  | JOther jsstring
  | JStr jsstring
  | JArr "json list"
  | JObj "(jsstring \<times> json) list"

definition is_lead :: "utf16 \<Rightarrow> bool" where
  "is_lead c = (0xD800 \<le> c \<and> c \<le> 0xDBFF)"

definition is_trail :: "utf16 \<Rightarrow> bool" where
  "is_trail c = (0xDC00 \<le> c \<and> c \<le> 0xDFFF)"

definition hexdigit :: "nat \<Rightarrow> utf16" where
  "hexdigit d = (if d < 10 then of_nat (48 + d) else of_nat (87 + d))"

text \<open>\<^verbatim>\<open>UnicodeEscape\<close>: backslash, u and four lowercase hexadecimal digits.\<close>

definition unicode_escape :: "utf16 \<Rightarrow> jsstring" where
  "unicode_escape c =
     [0x5C, 0x75, hexdigit (unat c div 4096), hexdigit (unat c div 256 mod 16),
      hexdigit (unat c div 16 mod 16), hexdigit (unat c mod 16)]"

text \<open>
  \<^verbatim>\<open>QuoteJSONString\<close> of ECMAScript (well-formed \<^verbatim>\<open>JSON.stringify\<close>): the short
  escapes for backspace, tab, line feed, form feed, carriage return, the quote and the
  backslash; a \<^verbatim>\<open>\u\<close> escape for every other unit below 0x20 and for a surrogate that
  is not part of a pair; every other unit as it is.
\<close>

definition quote_unit :: "utf16 \<Rightarrow> jsstring" where
  "quote_unit c =
     (if c = 0x08 then [0x5C, 0x62]
      else if c = 0x09 then [0x5C, 0x74]
      else if c = 0x0A then [0x5C, 0x6E]
      else if c = 0x0C then [0x5C, 0x66]
      else if c = 0x0D then [0x5C, 0x72]
      else if c = 0x22 then [0x5C, 0x22]
      else if c = 0x5C then [0x5C, 0x5C]
      else if c < 0x20 then unicode_escape c
      else if is_lead c then unicode_escape c
      else if is_trail c then unicode_escape c
      else [c])"

fun quote_units :: "jsstring \<Rightarrow> jsstring" where
  "quote_units [] = []"
| "quote_units [c] = quote_unit c"
| "quote_units (c # d # cs) =
     (if is_lead c \<and> is_trail d then c # d # quote_units cs
      else quote_unit c @ quote_units (d # cs))"

definition QuoteJSONString :: "jsstring \<Rightarrow> jsstring" where
  "QuoteJSONString s = [0x22] @ quote_units s @ [0x22]"

fun JSON_stringify :: "json \<Rightarrow> jsstring"
  and stringify_elements :: "json list \<Rightarrow> jsstring list"
  and stringify_members :: "(jsstring \<times> json) list \<Rightarrow> jsstring list" where
  "JSON_stringify JNull = str ''null''"
| "JSON_stringify (JBool b) = (if b then str ''true'' else str ''false'')"
| "JSON_stringify (JNum n) = int_to_string (sint n)"
| "JSON_stringify (JOther t) = t"
| "JSON_stringify (JStr s) = QuoteJSONString s"
| "JSON_stringify (JArr xs) = str ''['' @ str_join (str '','') (stringify_elements xs) @ str '']''"
| "JSON_stringify (JObj kvs) = str ''{'' @ str_join (str '','') (stringify_members kvs) @ str ''}''"
| "stringify_elements [] = []"
| "stringify_elements (x # xs) = JSON_stringify x # stringify_elements xs"
| "stringify_members [] = []"
| "stringify_members ((k, v) # kvs) =
     (QuoteJSONString k @ str '':'' @ JSON_stringify v) # stringify_members kvs"

subsection \<open>TextEncoder and the stream controller\<close>

text \<open>
  \<^verbatim>\<open>new TextEncoder().encode(s)\<close>: the UTF-8 bytes of the string's code points; a
  surrogate pair is one code point, a surrogate outside a pair is replaced by U+FFFD.
\<close>

definition utf8_cp :: "nat \<Rightarrow> byte list" where
  "utf8_cp cp =
     (if cp < 0x80 then [of_nat cp]
      else if cp < 0x800 then [of_nat (0xC0 + cp div 64), of_nat (0x80 + cp mod 64)]
      else if cp < 0x10000 then
        [of_nat (0xE0 + cp div 4096), of_nat (0x80 + cp div 64 mod 64), of_nat (0x80 + cp mod 64)]
      else
        [of_nat (0xF0 + cp div 262144), of_nat (0x80 + cp div 4096 mod 64),
         of_nat (0x80 + cp div 64 mod 64), of_nat (0x80 + cp mod 64)])"

definition pair_cp :: "utf16 \<Rightarrow> utf16 \<Rightarrow> nat" where
  "pair_cp c d = 0x10000 + (unat c - 0xD800) * 0x400 + (unat d - 0xDC00)"

definition unit_cp :: "utf16 \<Rightarrow> nat" where
  "unit_cp c = (if is_lead c then 0xFFFD else if is_trail c then 0xFFFD else unat c)"

fun TextEncoder_encode :: "jsstring \<Rightarrow> byte list" where
  "TextEncoder_encode [] = []"
| "TextEncoder_encode [c] = utf8_cp (unit_cp c)"
| "TextEncoder_encode (c # d # cs) =
     (if is_lead c \<and> is_trail d then utf8_cp (pair_cp c d) @ TextEncoder_encode cs
      else utf8_cp (unit_cp c) @ TextEncoder_encode (d # cs))"

text \<open>
  The controller of a \<^verbatim>\<open>ReadableStream\<close>: the chunks enqueued so far and whether
  \<^verbatim>\<open>close()\<close> was called. \<^verbatim>\<open>enqueue\<close> and \<^verbatim>\<open>close\<close> on a closed controller throw.
\<close>

record controller =
  chunks :: "byte list list"
  close_requested :: bool

datatype stream_error = ClosedController

definition enqueue :: "byte list \<Rightarrow> controller \<Rightarrow> stream_error + controller" where
  "enqueue c ctl =
     (if close_requested ctl then Inl ClosedController
      else Inr (ctl\<lparr>chunks := chunks ctl @ [c]\<rparr>))"

definition close :: "controller \<Rightarrow> stream_error + controller" where
  "close ctl =
     (if close_requested ctl then Inl ClosedController
      else Inr (ctl\<lparr>close_requested := True\<rparr>))"

subsection \<open>The stream of a response message\<close>

text \<open>
  \<^verbatim>\<open>start(controller)\<close> of both routes. The loop over the lines of the message, each
  line but the last with its line feed put back, one \<^verbatim>\<open>0:\<close> chunk per line; then the
  \<^verbatim>\<open>e:\<close> chunk, the \<^verbatim>\<open>d:\<close> chunk and \<^verbatim>\<open>close()\<close>.
\<close>

definition content_frame :: "jsstring \<Rightarrow> jsstring" where
  "content_frame content = str ''0:'' @ JSON_stringify (JStr content) @ [LF]"

definition usage :: "jsstring \<Rightarrow> json" where
  "usage message =
     JObj [(str ''promptTokens'', JNum 10),
           (str ''completionTokens'', JNum (of_nat (length message)))]"

definition finish_object :: "jsstring \<Rightarrow> json" where
  "finish_object message =
     JObj [(str ''finishReason'', JStr (str ''stop'')),
           (str ''usage'', usage message),
           (str ''isContinued'', JBool False)]"

definition done_object :: "jsstring \<Rightarrow> json" where
  "done_object message =
     JObj [(str ''finishReason'', JStr (str ''stop'')),
           (str ''usage'', usage message)]"

definition finish_frame :: "jsstring \<Rightarrow> jsstring" where
  "finish_frame message = str ''e:'' @ JSON_stringify (finish_object message) @ [LF]"

definition done_frame :: "jsstring \<Rightarrow> jsstring" where
  "done_frame message = str ''d:'' @ JSON_stringify (done_object message) @ [LF]"

function start_loop :: "jsstring list \<Rightarrow> nat \<Rightarrow> controller \<Rightarrow> stream_error + controller" where
  "start_loop lines i ctl =
     (if i < length lines then
        (let line = lines ! i;
             content = (if i < length lines - 1 then line @ [LF] else line)
         in case enqueue (TextEncoder_encode (content_frame content)) ctl of
              Inl e \<Rightarrow> Inl e
            | Inr ctl' \<Rightarrow> start_loop lines (i + 1) ctl')
      else Inr ctl)"
  by pat_completeness auto
termination
  by (relation "measure (\<lambda>(lines, i, ctl). length lines - i)") auto

declare start_loop.simps [simp del]

definition start :: "jsstring \<Rightarrow> controller \<Rightarrow> stream_error + controller" where
  "start message ctl =
     (case start_loop (str_split message LF) 0 ctl of
        Inl e \<Rightarrow> Inl e
      | Inr c1 \<Rightarrow>
          (case enqueue (TextEncoder_encode (finish_frame message)) c1 of
             Inl e \<Rightarrow> Inl e
           | Inr c2 \<Rightarrow>
               (case enqueue (TextEncoder_encode (done_frame message)) c2 of
                  Inl e \<Rightarrow> Inl e
                | Inr c3 \<Rightarrow> close c3)))"

text \<open>\<^verbatim>\<open>new ReadableStream({ start })\<close>: \<^verbatim>\<open>start\<close> runs on a fresh controller.\<close>

definition ReadableStream :: "jsstring \<Rightarrow> stream_error + controller" where
  "ReadableStream message = start message \<lparr>chunks = [], close_requested = False\<rparr>"

section \<open>The outside of a request\<close>

text \<open>
  What a \<^verbatim>\<open>catch\<close> clause can receive: an instance of \<^verbatim>\<open>Error\<close> with its message,
  or any other thrown value.
\<close>

datatype thrown = ErrorObj jsstring | NotAnError

text \<open>
  The errors the routes construct themselves, under the names the specification gives
  them; each is \<^verbatim>\<open>new Error(...)\<close> with the message of the source.
\<close>

definition MalformedInlineImage :: thrown where
  "MalformedInlineImage = ErrorObj (str ''Unsupported data URL format.'')"

definition UnsupportedImageSource :: thrown where
  "UnsupportedImageSource = ErrorObj (str ''Unsupported image source. Use a data URL or http(s) URL.'')"

text \<open>
  Faults the JavaScript engine raises by itself in the routes; each is an instance of
  \<^verbatim>\<open>Error\<close> (a TypeError or a URIError) whose wording is the engine's.
\<close>

datatype fault = ReadOfNull | ReadOfUndefined | NotCallable | NoPrimitive | MalformedURI

record http_response =
  ok :: bool
  status :: nat
  content_type_header :: "jsstring option"
  arrayBuffer :: "thrown + byte list"
  body_text :: "thrown + jsstring"
  body_json :: "thrown + json"

record put_object =
  Bucket :: "jsstring option"
  Key :: jsstring
  Body :: "byte list"
  ContentType :: jsstring

text \<open>
  Everything a request reads from outside the handler: the answers of \<^verbatim>\<open>fetch\<close> (by
  URL and method) and of the storage client's \<^verbatim>\<open>send\<close>, either of which may throw,
  the clock, the environment variables (absent ones are \<^verbatim>\<open>undefined\<close>) and the
  engine's wording of its own faults.
\<close>

record world =
  fetch :: "jsstring \<Rightarrow> jsstring option \<Rightarrow> thrown + http_response"
  s3_send :: "put_object \<Rightarrow> thrown + unit"
  Date_now :: nat
  AWS_S3_BUCKET :: "jsstring option"
  YOLO_SERVICE :: "jsstring option"
  engine_message :: "fault \<Rightarrow> jsstring"

text \<open>The outbound calls a request makes, in order.\<close>

datatype call = Fetch jsstring "jsstring option" | S3Send put_object

text \<open>An optional string inside a template literal.\<close>

fun template_text :: "jsstring option \<Rightarrow> jsstring" where
  "template_text None = str ''undefined''"
| "template_text (Some s) = s"

definition engine_error :: "world \<Rightarrow> fault \<Rightarrow> thrown" where
  "engine_error w f = ErrorObj (engine_message w f)"

subsection \<open>encodeURIComponent\<close>

definition uri_unreserved :: "utf16 \<Rightarrow> bool" where
  "uri_unreserved c =
     ((0x41 \<le> c \<and> c \<le> 0x5A) \<or> (0x61 \<le> c \<and> c \<le> 0x7A) \<or> (0x30 \<le> c \<and> c \<le> 0x39)
      \<or> c \<in> set (str ''-_.!~*()'') \<or> c = 0x27)"

definition upper_hexdigit :: "nat \<Rightarrow> utf16" where
  "upper_hexdigit d = (if d < 10 then of_nat (48 + d) else of_nat (55 + d))"

definition percent_byte :: "byte \<Rightarrow> jsstring" where
  "percent_byte b = [0x25, upper_hexdigit (unat b div 16), upper_hexdigit (unat b mod 16)]"

definition percent_cp :: "nat \<Rightarrow> jsstring" where
  "percent_cp cp = concat (map percent_byte (utf8_cp cp))"

text \<open>\<open>None\<close> is the URIError for a surrogate outside a pair.\<close>

fun encodeURIComponent :: "jsstring \<Rightarrow> jsstring option" where
  "encodeURIComponent [] = Some []"
| "encodeURIComponent [c] =
     (if uri_unreserved c then Some [c]
      else if is_lead c then None
      else if is_trail c then None
      else Some (percent_cp (unat c)))"
| "encodeURIComponent (c # d # cs) =
     (if uri_unreserved c then map_option ((#) c) (encodeURIComponent (d # cs))
      else if is_trail c then None
      else if is_lead c then
        (if is_trail d then map_option ((@) (percent_cp (pair_cp c d))) (encodeURIComponent cs)
         else None)
      else map_option ((@) (percent_cp (unat c))) (encodeURIComponent (d # cs)))"

subsection \<open>Buffer.from(s, "base64")\<close>

text \<open>
  The decoder of the Node runtime, which is lenient. It looks at the low byte of each
  code unit only (the unit is cast to eight bits before the table lookup, so U+0144
  reads as \<^verbatim>\<open>D\<close>). Both the standard and the URL-safe alphabet are accepted, every
  other byte, whitespace included, is skipped, decoding stops at the first \<^verbatim>\<open>=\<close>, and
  padding is not required (two trailing sextets give one byte, three give two). It
  never throws.
\<close>

definition unbase64 :: "byte \<Rightarrow> nat option" where
  "unbase64 c =
     (if 0x41 \<le> c \<and> c \<le> 0x5A then Some (unat c - 0x41)
      else if 0x61 \<le> c \<and> c \<le> 0x7A then Some (unat c - 0x61 + 26)
      else if 0x30 \<le> c \<and> c \<le> 0x39 then Some (unat c - 0x30 + 52)
      else if c = 0x2B then Some 62
      else if c = 0x2D then Some 62
      else if c = 0x2F then Some 63
      else if c = 0x5F then Some 63
      else None)"

fun base64_sextets :: "jsstring \<Rightarrow> nat list" where
  "base64_sextets [] = []"
| "base64_sextets (c # cs) =
     (if (ucast c :: byte) = 0x3D then []
      else (case unbase64 (ucast c) of
              None \<Rightarrow> base64_sextets cs
            | Some v \<Rightarrow> v # base64_sextets cs))"

fun sextets_bytes :: "nat list \<Rightarrow> byte list" where
  "sextets_bytes (a # b # c # d # r) =
     [of_nat (a * 4 + b div 16), of_nat (b mod 16 * 16 + c div 4), of_nat (c mod 4 * 64 + d)]
     @ sextets_bytes r"
| "sextets_bytes [a, b, c] = [of_nat (a * 4 + b div 16), of_nat (b mod 16 * 16 + c div 4)]"
| "sextets_bytes [a, b] = [of_nat (a * 4 + b div 16)]"
| "sextets_bytes [a] = []"
| "sextets_bytes [] = []"

definition Buffer_from_base64 :: "jsstring \<Rightarrow> byte list" where
  "Buffer_from_base64 s = sextets_bytes (base64_sextets s)"

section \<open>Helpers of the route\<close>

subsection \<open>guessExtFromContentType\<close>

definition guessExtFromContentType :: "jsstring option \<Rightarrow> jsstring" where
  "guessExtFromContentType ct =
     (if \<not> truthy ct then str ''jpg''
      else if str_includes (the ct) (str ''png'') then str ''png''
      else if str_includes (the ct) (str ''webp'') then str ''webp''
      else if str_includes (the ct) (str ''jpeg'') then str ''jpg''
      else if str_includes (the ct) (str ''gif'') then str ''gif''
      else str ''jpg'')"

text \<open>
  The specification's reading of the same function: an ordered table of
  (substring, extension) rules, the first rule whose substring occurs in the content
  type wins, and \<^verbatim>\<open>jpg\<close> is the default.
\<close>

definition ext_table :: "(jsstring \<times> jsstring) list" where
  "ext_table =
     [(str ''png'', str ''png''), (str ''webp'', str ''webp''),
      (str ''jpeg'', str ''jpg''), (str ''gif'', str ''gif'')]"

fun first_match :: "(jsstring \<times> jsstring) list \<Rightarrow> jsstring \<Rightarrow> jsstring option" where
  "first_match [] ct = None"
| "first_match ((pat, ext) # rules) ct =
     (if str_includes ct pat then Some ext else first_match rules ct)"

definition ext_by_table :: "jsstring option \<Rightarrow> jsstring" where
  "ext_by_table ct =
     (case ct of
        None \<Rightarrow> str ''jpg''
      | Some c \<Rightarrow> (case first_match ext_table c of None \<Rightarrow> str ''jpg'' | Some e \<Rightarrow> e))"

subsection \<open>parseDataUrl\<close>

text \<open>
  The regular expression \<^verbatim>\<open>/^data:(.+?);base64,(.*)$/\<close>, without flags: the dot
  matches every unit but the four line terminators, and \<^verbatim>\<open>$\<close> only the end of the
  input. After the literal \<^verbatim>\<open>data:\<close> the lazy group takes one unit and then grows by
  one unit at a time until the rest is \<^verbatim>\<open>;base64,\<close> followed by units the dot matches
  up to the end.
\<close>

definition is_line_terminator :: "utf16 \<Rightarrow> bool" where
  "is_line_terminator c = (c = 0x0A \<or> c = 0x0D \<or> c = 0x2028 \<or> c = 0x2029)"

definition dot :: "utf16 \<Rightarrow> bool" where
  "dot c = (\<not> is_line_terminator c)"

fun strip_prefix :: "jsstring \<Rightarrow> jsstring \<Rightarrow> jsstring option" where
  "strip_prefix [] s = Some s"
| "strip_prefix (p # ps) [] = None"
| "strip_prefix (p # ps) (c # cs) = (if p = c then strip_prefix ps cs else None)"

definition base64_tail :: "jsstring \<Rightarrow> jsstring option" where
  "base64_tail rest =
     (case strip_prefix (str '';base64,'') rest of
        None \<Rightarrow> None
      | Some d \<Rightarrow> (if list_all dot d then Some d else None))"

fun lazy_group :: "jsstring \<Rightarrow> jsstring \<Rightarrow> (jsstring \<times> jsstring) option" where
  "lazy_group t [] = None"
| "lazy_group t (c # cs) =
     (case base64_tail (c # cs) of
        Some d \<Rightarrow> Some (t, d)
      | None \<Rightarrow> (if dot c then lazy_group (t @ [c]) cs else None))"

definition data_url_exec :: "jsstring \<Rightarrow> (jsstring \<times> jsstring) option" where
  "data_url_exec dataUrl =
     (case strip_prefix (str ''data:'') dataUrl of
        None \<Rightarrow> None
      | Some [] \<Rightarrow> None
      | Some (c # cs) \<Rightarrow> (if dot c then lazy_group [c] cs else None))"

definition parseDataUrl :: "jsstring \<Rightarrow> thrown + (byte list \<times> jsstring)" where
  "parseDataUrl dataUrl =
     (case data_url_exec dataUrl of
        None \<Rightarrow> Inl MalformedInlineImage
      | Some (contentType, base64) \<Rightarrow> Inr (Buffer_from_base64 base64, contentType))"

subsection \<open>fetchAsBuffer\<close>

definition RemoteFetchFailed :: "nat \<Rightarrow> thrown" where
  "RemoteFetchFailed code = ErrorObj (str ''Failed to fetch image: '' @ digits code)"

definition fetchAsBuffer :: "world \<Rightarrow> jsstring \<Rightarrow> thrown + (byte list \<times> jsstring option)" where
  "fetchAsBuffer w url =
     (case fetch w url None of
        Inl e \<Rightarrow> Inl e
      | Inr res \<Rightarrow>
          (if \<not> ok res then Inl (RemoteFetchFailed (status res))
           else (case arrayBuffer res of
                   Inl e \<Rightarrow> Inl e
                 | Inr buffer \<Rightarrow> Inr (buffer, content_type_header res))))"

subsection \<open>getChatId (payload-addressed route)\<close>

record chat_data =
  images :: "jsstring list option"
  chatId :: "jsstring option"
  chat_id :: "jsstring option"

record chat_message =
  message_id :: "jsstring option"
  role :: "jsstring option"
  content :: "jsstring option"

record request =
  messages :: "chat_message list option"
  selectedModel :: "jsstring option"
  data :: "chat_data option"

text \<open>\<^verbatim>\<open>data?.chatId\<close>, \<^verbatim>\<open>data?.chat_id\<close>, \<^verbatim>\<open>messages?.[0]?.id\<close>.\<close>

fun opt_field :: "('a \<Rightarrow> 'b option) \<Rightarrow> 'a option \<Rightarrow> 'b option" where
  "opt_field f None = None"
| "opt_field f (Some x) = f x"

fun first_message_id :: "chat_message list option \<Rightarrow> jsstring option" where
  "first_message_id None = None"
| "first_message_id (Some []) = None"
| "first_message_id (Some (m # ms)) = message_id m"

definition getChatId :: "chat_data option \<Rightarrow> chat_message list option \<Rightarrow> jsstring" where
  "getChatId d ms =
     (if truthy (opt_field chatId d) then the (opt_field chatId d)
      else if truthy (opt_field chat_id d) then the (opt_field chat_id d)
      else if truthy (first_message_id ms) then the (first_message_id ms)
      else str ''anonymous'')"

subsection \<open>resolveChatFolderId (cookie-addressed route)\<close>

text \<open>
  The cookie jar of the request, the text of \<^verbatim>\<open>new Date().toISOString()\<close> and the text
  of \<^verbatim>\<open>randomUUID()\<close> come from outside. The result is the folder id and, when a new
  one was made, the \<^verbatim>\<open>Set-Cookie\<close> header.
\<close>

record session_world =
  cookie_jar :: "jsstring \<Rightarrow> jsstring option"
  toISOString_now :: jsstring
  randomUUID :: jsstring

definition maxAge :: nat where
  "maxAge = 60 * 60 * 24 * 90"

definition resolveChatFolderId :: "session_world \<Rightarrow> jsstring \<times> jsstring option" where
  "resolveChatFolderId sw =
     (let existing = cookie_jar sw (str ''chatFolderId'') in
      if truthy existing then (the existing, None)
      else
        (let today = hd (str_split (toISOString_now sw) 0x54);
             shortRand = hd (str_split (randomUUID sw) 0x2D);
             folder = today @ str ''-'' @ shortRand;
             setCookie = str ''chatFolderId='' @ folder @ str ''; Path=/; Max-Age='' @ digits maxAge
                         @ str ''; SameSite=Lax''
         in (folder, Some setCookie)))"

subsection \<open>The result template\<close>

text \<open>
  The detection service's answer is whatever \<^verbatim>\<open>res.json()\<close> parsed; the template
  reads three properties of it. \<open>get_own\<close> is the read of a property that no built-in
  prototype defines: an own property of an object, \<^verbatim>\<open>undefined\<close> otherwise. \<open>to_text\<close>
  is the string conversion of a template literal (\<open>None\<close>: the conversion throws, as it
  does for an object with an own \<^verbatim>\<open>toString\<close> property, which cannot be called), and
  \<open>array_join\<close> is \<^verbatim>\<open>Array.prototype.join\<close>, which prints \<^verbatim>\<open>null\<close> as nothing.
\<close>

fun is_null :: "json \<Rightarrow> bool" where
  "is_null JNull = True"
| "is_null v = False"

fun get_own :: "json \<Rightarrow> jsstring \<Rightarrow> json option" where
  "get_own (JObj kvs) name = map_of kvs name"
| "get_own v name = None"

fun to_text :: "json \<Rightarrow> jsstring option"
  and elements_text :: "json list \<Rightarrow> jsstring list option" where
  "to_text JNull = Some (str ''null'')"
| "to_text (JBool b) = Some (if b then str ''true'' else str ''false'')"
| "to_text (JNum n) = Some (int_to_string (sint n))"
| "to_text (JOther t) = Some t"
| "to_text (JStr s) = Some s"
| "to_text (JArr xs) = map_option (str_join (str '','')) (elements_text xs)"
| "to_text (JObj kvs) =
     (if map_of kvs (str ''toString'') = None then Some (str ''[object Object]'') else None)"
| "elements_text [] = Some []"
| "elements_text (JNull # xs) = map_option ((#) []) (elements_text xs)"
| "elements_text (x # xs) =
     (case to_text x of
        None \<Rightarrow> None
      | Some t \<Rightarrow> map_option ((#) t) (elements_text xs))"

definition array_join :: "jsstring \<Rightarrow> json list \<Rightarrow> jsstring option" where
  "array_join sep xs = map_option (str_join sep) (elements_text xs)"

fun slot_text :: "json option \<Rightarrow> jsstring option" where
  "slot_text None = Some (str ''undefined'')"
| "slot_text (Some v) = to_text v"

text \<open>\<^verbatim>\<open>predictionResult.labels.join(", ")\<close>.\<close>

fun labels_joined :: "world \<Rightarrow> json option \<Rightarrow> thrown + jsstring" where
  "labels_joined w None = Inl (engine_error w ReadOfUndefined)"
| "labels_joined w (Some JNull) = Inl (engine_error w ReadOfNull)"
| "labels_joined w (Some (JArr xs)) =
     (case array_join (str '', '') xs of
        None \<Rightarrow> Inl (engine_error w NoPrimitive)
      | Some t \<Rightarrow> Inr t)"
| "labels_joined w (Some v) = Inl (engine_error w NotCallable)"

definition success_template :: "jsstring \<Rightarrow> jsstring \<Rightarrow> jsstring \<Rightarrow> jsstring" where
  "success_template count labels uid =
     [0xD83D, 0xDD0D] @ str '' **Object Detection Results**'' @ [LF, LF]
     @ str ''**Detection Count:** '' @ count @ [LF]
     @ str ''**Detected Objects:** '' @ labels @ [LF]
     @ str ''**Prediction ID:** '' @ uid @ [LF, LF]
     @ str ''I'' @ [0x27] @ str ''ve analyzed your image and detected '' @ count
     @ str '' object(s). The detected objects include: '' @ labels @ str ''.''"

definition success_message :: "world \<Rightarrow> json \<Rightarrow> thrown + jsstring" where
  "success_message w predictionResult =
     (if is_null predictionResult then Inl (engine_error w ReadOfNull)
      else
        (case slot_text (get_own predictionResult (str ''detection_count'')) of
           None \<Rightarrow> Inl (engine_error w NoPrimitive)
         | Some count \<Rightarrow>
             (case labels_joined w (get_own predictionResult (str ''labels'')) of
                Inl e \<Rightarrow> Inl e
              | Inr labels \<Rightarrow>
                  (case slot_text (get_own predictionResult (str ''prediction_uid'')) of
                     None \<Rightarrow> Inl (engine_error w NoPrimitive)
                   | Some uid \<Rightarrow> Inr (success_template count labels uid)))))"

text \<open>The message of the \<^verbatim>\<open>catch\<close> block.\<close>

fun error_text :: "thrown \<Rightarrow> jsstring" where
  "error_text (ErrorObj m) = m"
| "error_text NotAnError = str ''Unknown error''"

definition error_report :: "world \<Rightarrow> thrown \<Rightarrow> jsstring" where
  "error_report w error =
     [0x274C] @ str '' **Object Detection Error**'' @ [LF, LF]
     @ str ''Sorry, I encountered an error while processing your image: '' @ error_text error
     @ [LF, LF]
     @ str ''Please make sure the object detection service is reachable at http://''
     @ template_text (YOLO_SERVICE w) @ str ''.''"

subsection \<open>The body of the try block\<close>

text \<open>
  Image resolving, upload, detection call and formatting, in the order of the source,
  for a given folder id and image reference. The result is the log of the outbound
  calls made and either the value thrown or the success message. The two routes have
  the same text here.
\<close>

definition resolve_image ::
  "world \<Rightarrow> jsstring \<Rightarrow> call list \<times> (thrown + (byte list \<times> jsstring option))" where
  "resolve_image w imageUrl =
     (if startsWith imageUrl (str ''data:'') then
        ([], case parseDataUrl imageUrl of
               Inl e \<Rightarrow> Inl e
             | Inr (buffer, contentType) \<Rightarrow> Inr (buffer, Some contentType))
      else if startsWith imageUrl (str ''http://'') \<or> startsWith imageUrl (str ''https://'') then
        ([Fetch imageUrl None], fetchAsBuffer w imageUrl)
      else ([], Inl UnsupportedImageSource))"

definition object_key :: "world \<Rightarrow> jsstring \<Rightarrow> jsstring option \<Rightarrow> jsstring" where
  "object_key w chat contentType =
     chat @ str ''/original/'' @ digits (Date_now w) @ str ''.''
     @ guessExtFromContentType contentType"

definition put_command :: "world \<Rightarrow> jsstring \<Rightarrow> byte list \<Rightarrow> jsstring option \<Rightarrow> put_object" where
  "put_command w key buffer contentType =
     \<lparr>Bucket = AWS_S3_BUCKET w, Key = key, Body = buffer,
      ContentType = (if truthy contentType then the contentType else str ''image/jpeg'')\<rparr>"

definition DetectionServiceError :: "nat \<Rightarrow> jsstring \<Rightarrow> thrown" where
  "DetectionServiceError code text =
     ErrorObj (str ''Prediction API error: '' @ digits code @ str '' '' @ text)"

definition predict :: "world \<Rightarrow> jsstring \<Rightarrow> jsstring \<Rightarrow> call list \<times> (thrown + jsstring)" where
  "predict w key chat =
     (case encodeURIComponent key of
        None \<Rightarrow> ([], Inl (engine_error w MalformedURI))
      | Some img \<Rightarrow>
          (case encodeURIComponent chat of
             None \<Rightarrow> ([], Inl (engine_error w MalformedURI))
           | Some cid \<Rightarrow>
               (let yoloUrl = str ''http://'' @ template_text (YOLO_SERVICE w)
                              @ str ''/predict?img='' @ img @ str ''&chat_id='' @ cid
                in ([Fetch yoloUrl (Some (str ''POST''))],
                    case fetch w yoloUrl (Some (str ''POST'')) of
                      Inl e \<Rightarrow> Inl e
                    | Inr predictionResponse \<Rightarrow>
                        (if \<not> ok predictionResponse then
                           Inl (DetectionServiceError (status predictionResponse)
                                  (case body_text predictionResponse of
                                     Inl e \<Rightarrow> []
                                   | Inr t \<Rightarrow> t))
                         else
                           (case body_json predictionResponse of
                              Inl e \<Rightarrow> Inl e
                            | Inr predictionResult \<Rightarrow> success_message w predictionResult))))))"

definition detect :: "world \<Rightarrow> jsstring \<Rightarrow> jsstring \<Rightarrow> call list \<times> (thrown + jsstring)" where
  "detect w chat imageUrl =
     (case resolve_image w imageUrl of
        (log1, Inl e) \<Rightarrow> (log1, Inl e)
      | (log1, Inr (buffer, contentType)) \<Rightarrow>
          (let key = object_key w chat contentType;
               put = put_command w key buffer contentType
           in case s3_send w put of
                Inl e \<Rightarrow> (log1 @ [S3Send put], Inl e)
              | Inr u \<Rightarrow>
                  (case predict w key chat of
                     (log2, r) \<Rightarrow> (log1 @ [S3Send put] @ log2, r))))"

subsection \<open>POST\<close>

text \<open>
  What a request leaves behind: the outbound calls, the response message (\<open>reply\<close>), the body
  stream as \<^verbatim>\<open>start\<close> left its controller, and the response headers.
\<close>

record outcome =
  calls :: "call list"
  reply :: jsstring
  body :: "stream_error + controller"
  headers :: "(jsstring \<times> jsstring) list"

text \<open>
  \<^verbatim>\<open>let message = ...; if (data?.images && data.images.length > 0) try ... catch ...\<close>:
  the message starts as the prompt for an image; with a first image the try block runs
  and the message is its success text or the error report of what it threw.
\<close>

fun first_image :: "chat_data option \<Rightarrow> jsstring option" where
  "first_image None = None"
| "first_image (Some d) =
     (case images d of None \<Rightarrow> None | Some [] \<Rightarrow> None | Some (imageUrl # others) \<Rightarrow> Some imageUrl)"

definition respond :: "world \<Rightarrow> jsstring \<Rightarrow> chat_data option \<Rightarrow> call list \<times> jsstring" where
  "respond w chat d =
     (case first_image d of
        None \<Rightarrow> ([], str ''Please provide an image for object detection.'')
      | Some imageUrl \<Rightarrow>
          (case detect w chat imageUrl of
             (log, Inl error) \<Rightarrow> (log, error_report w error)
           | (log, Inr text) \<Rightarrow> (log, text)))"

definition stream_headers :: "(jsstring \<times> jsstring) list" where
  "stream_headers =
     [(str ''Content-Type'', str ''text/plain; charset=utf-8''),
      (str ''X-Vercel-AI-Data-Stream'', str ''v1'')]"

text \<open>
  The payload-addressed route: the folder id is \<open>getChatId\<close> of the request. The list
  \<^verbatim>\<open>cleanedMessages\<close> that the source builds first is never read again and is left
  out; \<^verbatim>\<open>selectedModel\<close> is read from the request and not used either.
\<close>

definition POST :: "world \<Rightarrow> request \<Rightarrow> outcome" where
  "POST w req =
     (case respond w (getChatId (data req) (messages req)) (data req) of
        (log, text) \<Rightarrow>
          \<lparr>calls = log, reply = text, body = ReadableStream text, headers = stream_headers\<rparr>)"

text \<open>
  The cookie-addressed route: the folder id is \<open>resolveChatFolderId\<close>, and a new one
  adds the \<^verbatim>\<open>Set-Cookie\<close> header.
\<close>

definition POST_cookie :: "world \<Rightarrow> session_world \<Rightarrow> request \<Rightarrow> outcome" where
  "POST_cookie w sw req =
     (case resolveChatFolderId sw of
        (chat, setCookieHeader) \<Rightarrow>
          (case respond w chat (data req) of
             (log, text) \<Rightarrow>
               \<lparr>calls = log, reply = text, body = ReadableStream text,
                headers = stream_headers @
                  (case setCookieHeader of
                     None \<Rightarrow> []
                   | Some h \<Rightarrow> [(str ''Set-Cookie'', h)])\<rparr>))"

subsection \<open>Sample requests\<close>

text \<open>
  A world in which every outbound call succeeds and the detection service reports three
  objects, one in which the storage client throws, and two requests: one with an inline
  image followed by a second reference, one without images.
\<close>

definition sample_detection :: json where
  "sample_detection =
     JObj [(str ''detection_count'', JNum 3),
           (str ''labels'', JArr [JStr (str ''cat''), JStr (str ''dog''), JStr (str ''car'')]),
           (str ''prediction_uid'', JStr (str ''abc123''))]"

definition sample_response :: http_response where
  "sample_response =
     \<lparr>ok = True, status = 200, content_type_header = Some (str ''image/png''),
      arrayBuffer = Inr [0x89, 0x50], body_text = Inr [], body_json = Inr sample_detection\<rparr>"

definition sample_world :: world where
  "sample_world =
     \<lparr>fetch = (\<lambda>url method. Inr sample_response), s3_send = (\<lambda>put. Inr ()),
      Date_now = 1700000000000, AWS_S3_BUCKET = Some (str ''uploads''),
      YOLO_SERVICE = Some (str ''yolo:8080''), engine_message = (\<lambda>f. str ''engine fault'')\<rparr>"

definition storage_down_world :: world where
  "storage_down_world = sample_world\<lparr>s3_send := (\<lambda>put. Inl (ErrorObj (str ''Access Denied'')))\<rparr>"

definition sample_request :: request where
  "sample_request =
     \<lparr>messages = Some [\<lparr>message_id = Some (str ''m1''), role = Some (str ''user''),
                          content = Some (str ''what is this?'')\<rparr>],
      selectedModel = None,
      data = Some \<lparr>images = Some [str ''data:image/png;base64,QUJD'', str ''ftp://ignored''],
                   chatId = Some (str ''chat42''), chat_id = None\<rparr>\<rparr>"

definition three_lines :: jsstring where
  "three_lines = str ''a'' @ [LF] @ str ''b'' @ [LF] @ str ''c''"

definition sample_url :: jsstring where
  "sample_url = str ''http://yolo:8080/predict?img=chat42%2Foriginal%2F1700000000000.png&chat_id=chat42''"

definition sample_put :: put_object where
  "sample_put =
     \<lparr>Bucket = Some (str ''uploads''), Key = str ''chat42/original/1700000000000.png'',
      Body = [0x41, 0x42, 0x43], ContentType = str ''image/png''\<rparr>"

definition with_image :: "jsstring \<Rightarrow> request" where
  "with_image ref =
     \<lparr>messages = None, selectedModel = None,
      data = Some \<lparr>images = Some [ref], chatId = None, chat_id = None\<rparr>\<rparr>"

text \<open>
  A first visit without the cookie, and a later visit (another day, another random
  UUID) that carries the folder id the first visit was given.
\<close>

definition first_visit :: session_world where
  "first_visit =
     \<lparr>cookie_jar = (\<lambda>name. None), toISOString_now = str ''2025-09-04T10:11:12.123Z'',
      randomUUID = str ''1b9d6bcd-bbfd-4b2d-9b5d-ab8dfbbd4bed''\<rparr>"

definition later_visit :: session_world where
  "later_visit =
     \<lparr>cookie_jar = (\<lambda>name. if name = str ''chatFolderId'' then Some (str ''2025-09-04-1b9d6bcd'') else None),
      toISOString_now = str ''2025-12-03T08:00:00.000Z'',
      randomUUID = str ''9c5b94b1-35ad-49bb-b118-8e8fc24abf80''\<rparr>"

definition empty_request :: request where
  "empty_request = \<lparr>messages = None, selectedModel = None, data = None\<rparr>"

section \<open>The receiving side\<close>

text \<open>
  The routes only write. What the specification says about reading the stream back
  (decode the bytes, take the tag and the payload of each frame, JSON-decode the
  payloads) and about re-encoding a buffer as base64 is stated against the standard
  readers below: a strict UTF-8 decoder, the JSON grammar of a string literal, and the
  padded base64 encoder of \<^verbatim>\<open>buffer.toString("base64")\<close>.
\<close>

definition is_cont :: "byte \<Rightarrow> bool" where
  "is_cont b = (0x80 \<le> b \<and> b \<le> 0xBF)"

definition cp_units :: "nat \<Rightarrow> jsstring" where
  "cp_units cp =
     (if cp < 0x10000 then [of_nat cp]
      else [of_nat (0xD800 + (cp - 0x10000) div 0x400), of_nat (0xDC00 + (cp - 0x10000) mod 0x400)])"

definition cp2 :: "byte \<Rightarrow> byte \<Rightarrow> nat" where
  "cp2 b0 b1 = (unat b0 - 0xC0) * 64 + (unat b1 - 0x80)"

definition cp3 :: "byte \<Rightarrow> byte \<Rightarrow> byte \<Rightarrow> nat" where
  "cp3 b0 b1 b2 = (unat b0 - 0xE0) * 4096 + (unat b1 - 0x80) * 64 + (unat b2 - 0x80)"

definition cp4 :: "byte \<Rightarrow> byte \<Rightarrow> byte \<Rightarrow> byte \<Rightarrow> nat" where
  "cp4 b0 b1 b2 b3 =
     (unat b0 - 0xF0) * 262144 + (unat b1 - 0x80) * 4096 + (unat b2 - 0x80) * 64 + (unat b3 - 0x80)"

fun TextDecoder_decode :: "byte list \<Rightarrow> jsstring option" where
  "TextDecoder_decode [] = Some []"
| "TextDecoder_decode (b # bs) =
     (if b < 0x80 then map_option ((@) (cp_units (unat b))) (TextDecoder_decode bs)
      else if b < 0xC2 then None
      else if b < 0xE0 then
        (case bs of
           b1 # r \<Rightarrow>
             (if is_cont b1 then map_option ((@) (cp_units (cp2 b b1))) (TextDecoder_decode r)
              else None)
         | [] \<Rightarrow> None)
      else if b < 0xF0 then
        (case bs of
           b1 # b2 # r \<Rightarrow>
             (if is_cont b1 \<and> is_cont b2 \<and> 0x800 \<le> cp3 b b1 b2
                 \<and> (cp3 b b1 b2 < 0xD800 \<or> 0xDFFF < cp3 b b1 b2)
              then map_option ((@) (cp_units (cp3 b b1 b2))) (TextDecoder_decode r)
              else None)
         | [b1] \<Rightarrow> None
         | [] \<Rightarrow> None)
      else if b < 0xF5 then
        (case bs of
           b1 # b2 # b3 # r \<Rightarrow>
             (if is_cont b1 \<and> is_cont b2 \<and> is_cont b3 \<and> 0x10000 \<le> cp4 b b1 b2 b3
                 \<and> cp4 b b1 b2 b3 \<le> 0x10FFFF
              then map_option ((@) (cp_units (cp4 b b1 b2 b3))) (TextDecoder_decode r)
              else None)
         | [b1, b2] \<Rightarrow> None
         | [b1] \<Rightarrow> None
         | [] \<Rightarrow> None)
      else None)"

text \<open>
  A JSON string literal: a quote, then units and escapes, then the closing quote at the
  end of the text. \<open>None\<close> when the text is not one.
\<close>

definition hexval :: "utf16 \<Rightarrow> nat option" where
  "hexval c =
     (if 0x30 \<le> c \<and> c \<le> 0x39 then Some (unat c - 0x30)
      else if 0x61 \<le> c \<and> c \<le> 0x66 then Some (unat c - 0x61 + 10)
      else if 0x41 \<le> c \<and> c \<le> 0x46 then Some (unat c - 0x41 + 10)
      else None)"

definition simple_escape :: "utf16 \<Rightarrow> utf16 option" where
  "simple_escape e =
     (if e = 0x22 then Some 0x22
      else if e = 0x5C then Some 0x5C
      else if e = 0x2F then Some 0x2F
      else if e = 0x62 then Some 0x08
      else if e = 0x66 then Some 0x0C
      else if e = 0x6E then Some 0x0A
      else if e = 0x72 then Some 0x0D
      else if e = 0x74 then Some 0x09
      else None)"

fun hex4 :: "utf16 \<Rightarrow> utf16 \<Rightarrow> utf16 \<Rightarrow> utf16 \<Rightarrow> utf16 option" where
  "hex4 h1 h2 h3 h4 =
     (case hexval h1 of
        None \<Rightarrow> None
      | Some a \<Rightarrow>
          (case hexval h2 of
             None \<Rightarrow> None
           | Some b \<Rightarrow>
               (case hexval h3 of
                  None \<Rightarrow> None
                | Some c \<Rightarrow>
                    (case hexval h4 of
                       None \<Rightarrow> None
                     | Some d \<Rightarrow> Some (of_nat (((a * 16 + b) * 16 + c) * 16 + d))))))"

fun unquote_units :: "jsstring \<Rightarrow> jsstring option" where
  "unquote_units [] = None"
| "unquote_units (c # cs) =
     (if c = 0x22 then (if cs = [] then Some [] else None)
      else if c = 0x5C then
        (case cs of
           [] \<Rightarrow> None
         | e # r \<Rightarrow>
             (if e = 0x75 then
                (case r of
                   h1 # h2 # h3 # h4 # r' \<Rightarrow>
                     (case hex4 h1 h2 h3 h4 of
                        None \<Rightarrow> None
                      | Some u \<Rightarrow> map_option ((#) u) (unquote_units r'))
                 | _ \<Rightarrow> None)
              else
                (case simple_escape e of
                   None \<Rightarrow> None
                 | Some u \<Rightarrow> map_option ((#) u) (unquote_units r))))
      else if c < 0x20 then None
      else map_option ((#) c) (unquote_units cs))"

definition JSON_parse_string :: "jsstring \<Rightarrow> jsstring option" where
  "JSON_parse_string t =
     (case t of [] \<Rightarrow> None | q # rest \<Rightarrow> (if q = 0x22 then unquote_units rest else None))"

text \<open>
  A frame is a tag, a colon, a payload and a line feed; its reader gives the tag and
  the payload. The text of a stream is what the payloads of its \<^verbatim>\<open>0:\<close> frames decode
  to, concatenated in order.
\<close>

definition read_frame :: "byte list \<Rightarrow> (utf16 \<times> jsstring) option" where
  "read_frame chunk =
     (case TextDecoder_decode chunk of
        None \<Rightarrow> None
      | Some t \<Rightarrow>
          (case t of
             tag # colon # rest \<Rightarrow>
               (if colon = 0x3A \<and> rest \<noteq> [] \<and> last rest = LF then Some (tag, butlast rest)
                else None)
           | _ \<Rightarrow> None))"

fun frame_tags :: "byte list list \<Rightarrow> utf16 option list" where
  "frame_tags [] = []"
| "frame_tags (c # cs) = map_option fst (read_frame c) # frame_tags cs"

fun content_text :: "byte list list \<Rightarrow> jsstring option" where
  "content_text [] = Some []"
| "content_text (c # cs) =
     (case read_frame c of
        None \<Rightarrow> None
      | Some (tag, payload) \<Rightarrow>
          (if tag = 0x30 then
             (case JSON_parse_string payload of
                None \<Rightarrow> None
              | Some piece \<Rightarrow> map_option ((@) piece) (content_text cs))
           else content_text cs))"

text \<open>
  The specification's words for the content frames: the lines of the message, each line
  except the last with its line break put back. And the frames a message is expected
  to produce: one content frame per such line, then the \<^verbatim>\<open>e:\<close> and the \<^verbatim>\<open>d:\<close> frame.
\<close>

fun resuffix :: "jsstring list \<Rightarrow> jsstring list" where
  "resuffix [] = []"
| "resuffix [l] = [l]"
| "resuffix (l # m # ls) = (l @ [LF]) # resuffix (m # ls)"

definition stream_frames :: "jsstring \<Rightarrow> jsstring list" where
  "stream_frames message =
     map content_frame (resuffix (str_split message LF))
     @ [finish_frame message, done_frame message]"

text \<open>
  What a response body carries: the chunks of its stream (none if \<^verbatim>\<open>start\<close> threw), and
  among them the payloads of the frames with a given tag, in order.
\<close>

fun sent_chunks :: "stream_error + controller \<Rightarrow> byte list list" where
  "sent_chunks (Inl e) = []"
| "sent_chunks (Inr ctl) = chunks ctl"

fun frames_tagged :: "utf16 \<Rightarrow> byte list list \<Rightarrow> jsstring list" where
  "frames_tagged t [] = []"
| "frames_tagged t (c # cs) =
     (case read_frame c of
        None \<Rightarrow> frames_tagged t cs
      | Some (tag, payload) \<Rightarrow>
          (if tag = t then payload # frames_tagged t cs else frames_tagged t cs))"

text \<open>
  Reading a number off the wire: the decimal digits that follow the first occurrence of
  the quoted field name and its colon in a payload, and their value.
\<close>

definition is_digit :: "utf16 \<Rightarrow> bool" where
  "is_digit c = (0x30 \<le> c \<and> c \<le> 0x39)"

definition decimal_value :: "jsstring \<Rightarrow> nat" where
  "decimal_value ds = foldl (\<lambda>a c. a * 10 + (unat c - 48)) 0 ds"

fun text_after :: "jsstring \<Rightarrow> jsstring \<Rightarrow> jsstring option" where
  "text_after key [] = strip_prefix key []"
| "text_after key (c # cs) =
     (case strip_prefix key (c # cs) of
        Some r \<Rightarrow> Some r
      | None \<Rightarrow> text_after key cs)"

definition number_field :: "jsstring \<Rightarrow> jsstring \<Rightarrow> nat option" where
  "number_field name payload =
     (case text_after ([0x22] @ name @ [0x22, 0x3A]) payload of
        None \<Rightarrow> None
      | Some r \<Rightarrow>
          (if takeWhile is_digit r = [] then None
           else Some (decimal_value (takeWhile is_digit r))))"

text \<open>A field of the \<^verbatim>\<open>usage\<close> object of a frame's payload.\<close>

definition usage_field :: "json \<Rightarrow> jsstring \<Rightarrow> json option" where
  "usage_field payload name =
     (case get_own payload (str ''usage'') of None \<Rightarrow> None | Some u \<Rightarrow> get_own u name)"

text \<open>
  A string without unpaired surrogates; only such a string is the same after a trip
  through UTF-8.
\<close>

definition is_surrogate :: "utf16 \<Rightarrow> bool" where
  "is_surrogate c = (0xD800 \<le> c \<and> c \<le> 0xDFFF)"

fun wellformed :: "jsstring \<Rightarrow> bool" where
  "wellformed [] = True"
| "wellformed [c] = (\<not> is_surrogate c)"
| "wellformed (c # d # cs) =
     (if is_lead c \<and> is_trail d then wellformed cs
      else if is_surrogate c then False
      else wellformed (d # cs))"

text \<open>A string of units below 0x80.\<close>

definition ascii :: "jsstring \<Rightarrow> bool" where
  "ascii s = list_all (\<lambda>c. c < 0x80) s"

text \<open>
  The shape \<^verbatim>\<open>data:<type>;base64,<data>\<close> in the specification's words: after
  \<^verbatim>\<open>data:\<close> a media type of at least one unit, then \<^verbatim>\<open>;base64,\<close>, then the data.
\<close>

definition data_url_shape :: "jsstring \<Rightarrow> bool" where
  "data_url_shape ref =
     (case strip_prefix (str ''data:'') ref of
        None \<Rightarrow> False
      | Some [] \<Rightarrow> False
      | Some (c # rest) \<Rightarrow> str_includes rest (str '';base64,''))"

text \<open>\<^verbatim>\<open>buffer.toString("base64")\<close>: the standard alphabet, padded with \<^verbatim>\<open>=\<close>.\<close>

definition base64_char :: "nat \<Rightarrow> utf16" where
  "base64_char v =
     (if v < 26 then of_nat (0x41 + v)
      else if v < 52 then of_nat (0x61 + (v - 26))
      else if v < 62 then of_nat (0x30 + (v - 52))
      else if v = 62 then 0x2B
      else 0x2F)"

fun toString_base64 :: "byte list \<Rightarrow> jsstring" where
  "toString_base64 [] = []"
| "toString_base64 [x] =
     [base64_char (unat x div 4), base64_char (unat x mod 4 * 16), 0x3D, 0x3D]"
| "toString_base64 [x, y] =
     [base64_char (unat x div 4), base64_char (unat x mod 4 * 16 + unat y div 16),
      base64_char (unat y mod 16 * 4), 0x3D]"
| "toString_base64 (x # y # z # r) =
     [base64_char (unat x div 4), base64_char (unat x mod 4 * 16 + unat y div 16),
      base64_char (unat y mod 16 * 4 + unat z div 64), base64_char (unat z mod 64)]
     @ toString_base64 r"

section \<open>Properties\<close>

subsection \<open>Substring search\<close>

lemma str_includes_iff_sublist: "str_includes s t \<longleftrightarrow> sublist t s"
  by (induction s) (auto simp: sublist_Cons_right)

lemma str_includes_append: "str_includes (a @ t @ b) t"
  by (simp add: str_includes_iff_sublist)

subsection \<open>Lines and the loop of start\<close>

lemma str_split_not_Nil: "str_split s sep \<noteq> []"
  by (induction s) (auto split: list.splits)

lemma concat_resuffix_split: "concat (resuffix (str_split s LF)) = s"
proof (induction s)
  case Nil
  then show ?case by simp
next
  case (Cons c s)
  show ?case
  proof (cases "str_split s LF")
    case Nil
    then show ?thesis using str_split_not_Nil by blast
  next
    case (Cons l ls)
    with Cons.IH show ?thesis
      by (cases ls) auto
  qed
qed

lemma length_resuffix: "length (resuffix ls) = length ls"
  by (induction ls rule: resuffix.induct) auto

lemma resuffix_nth:
  "i < length ls \<Longrightarrow> resuffix ls ! i = (if i < length ls - 1 then ls ! i @ [LF] else ls ! i)"
proof (induction ls arbitrary: i rule: resuffix.induct)
  case 1
  then show ?case by simp
next
  case (2 l)
  then show ?case by simp
next
  case (3 l m ls)
  then show ?case by (cases i) auto
qed

lemma start_loop_chunks:
  "\<not> close_requested ctl \<Longrightarrow>
   start_loop ls i ctl =
     Inr (ctl\<lparr>chunks := chunks ctl @ map (\<lambda>c. TextEncoder_encode (content_frame c)) (drop i (resuffix ls))\<rparr>)"
proof (induction ls i ctl rule: start_loop.induct)
  case (1 ls i ctl)
  show ?case
  proof (cases "i < length ls")
    case False
    then show ?thesis
      by (simp add: start_loop.simps [of ls i ctl] length_resuffix)
  next
    case True
    let ?content = "if i < length ls - 1 then ls ! i @ [LF] else ls ! i"
    let ?ctl' = "ctl\<lparr>chunks := chunks ctl @ [TextEncoder_encode (content_frame ?content)]\<rparr>"
    have enq: "enqueue (TextEncoder_encode (content_frame ?content)) ctl = Inr ?ctl'"
      using "1.prems" by (simp add: enqueue_def)
    have open': "\<not> close_requested ?ctl'"
      using "1.prems" by simp
    have step: "start_loop ls i ctl = start_loop ls (i + 1) ?ctl'"
      using True enq by (simp add: start_loop.simps [of ls i ctl] Let_def)
    have ih: "start_loop ls (i + 1) ?ctl' =
        Inr (?ctl'\<lparr>chunks := chunks ?ctl' @ map (\<lambda>c. TextEncoder_encode (content_frame c)) (drop (i + 1) (resuffix ls))\<rparr>)"
      using "1.IH" [OF True refl refl enq open'] .
    have dr: "drop i (resuffix ls) = ?content # drop (i + 1) (resuffix ls)"
      using True resuffix_nth [of i ls] Cons_nth_drop_Suc [of i "resuffix ls"]
      by (simp add: length_resuffix)
    show ?thesis
      unfolding step ih dr by simp
  qed
qed

lemma ReadableStream_chunks:
  "ReadableStream message =
     Inr \<lparr>chunks = map TextEncoder_encode (stream_frames message), close_requested = True\<rparr>"
  by (simp add: ReadableStream_def start_def start_loop_chunks enqueue_def close_def
      stream_frames_def comp_def)

subsection \<open>JSON string literals read back\<close>

lemma unat_of_nat16: "n < 65536 \<Longrightarrow> unat (word_of_nat n :: 16 word) = n"
  by (simp add: unat_of_nat)

lemma unat_hexdigit: "d < 16 \<Longrightarrow> unat (hexdigit d) = (if d < 10 then 48 + d else 87 + d)"
  unfolding hexdigit_def by (simp only: unat_of_nat16 split: if_splits) (simp add: unat_of_nat16 del: of_nat_add of_nat_numeral)

lemma hexval_unat:
  "hexval c =
     (if 48 \<le> unat c \<and> unat c \<le> 57 then Some (unat c - 48)
      else if 97 \<le> unat c \<and> unat c \<le> 102 then Some (unat c - 97 + 10)
      else if 65 \<le> unat c \<and> unat c \<le> 70 then Some (unat c - 65 + 10)
      else None)"
  by (simp add: hexval_def word_le_nat_alt)

lemma hexval_hexdigit: "d < 16 \<Longrightarrow> hexval (hexdigit d) = Some d"
  by (simp add: hexval_unat unat_hexdigit)

lemma hex4_digits:
  "hex4 (hexdigit (unat c div 4096)) (hexdigit (unat c div 256 mod 16))
        (hexdigit (unat c div 16 mod 16)) (hexdigit (unat c mod 16)) = Some (c :: utf16)"
proof -
  define n where "n = unat c"
  have lt: "n < 65536" unfolding n_def using unsigned_less [of c, where 'a = nat] by simp
  then have a: "n div 4096 < 16" by simp
  have e1: "n div 4096 = n div 256 div 16" by (simp add: div_mult2_eq [symmetric])
  have e2: "n div 256 = n div 16 div 16" by (simp add: div_mult2_eq [symmetric])
  have s1: "n div 4096 * 16 + n div 256 mod 16 = n div 256"
    unfolding e1 by (rule div_mult_mod_eq)
  have s2: "n div 256 * 16 + n div 16 mod 16 = n div 16"
    unfolding e2 by (rule div_mult_mod_eq)
  have s3: "n div 16 * 16 + n mod 16 = n"
    by (rule div_mult_mod_eq)
  have "((n div 4096 * 16 + n div 256 mod 16) * 16 + n div 16 mod 16) * 16 + n mod 16 = n"
    unfolding s1 s2 s3 ..
  then have "hex4 (hexdigit (n div 4096)) (hexdigit (n div 256 mod 16))
        (hexdigit (n div 16 mod 16)) (hexdigit (n mod 16)) = Some (word_of_nat n :: utf16)"
    using a by (simp add: hexval_hexdigit del: of_nat_add of_nat_mult of_nat_numeral)
  then show ?thesis
    unfolding n_def by simp
qed

lemma unquote_unicode_escape:
  "unquote_units (unicode_escape c @ rest) = map_option ((#) c) (unquote_units rest)"
  using hex4_digits [of c] by (simp add: unicode_escape_def del: hex4.simps)

lemma unquote_literal:
  "c \<noteq> 0x22 \<Longrightarrow> c \<noteq> 0x5C \<Longrightarrow> \<not> c < 0x20 \<Longrightarrow>
   unquote_units (c # rest) = map_option ((#) c) (unquote_units rest)"
  by simp

lemma unquote_quote_unit:
  "unquote_units (quote_unit c @ rest) = map_option ((#) c) (unquote_units rest)"
  by (simp add: quote_unit_def unquote_unicode_escape simple_escape_def
      del: unquote_units.simps) (simp_all add: simple_escape_def)

lemma lead_literal: "is_lead c \<Longrightarrow> c \<noteq> 0x22 \<and> c \<noteq> 0x5C \<and> \<not> c < 0x20"
  by (auto simp: is_lead_def word_le_nat_alt word_less_nat_alt)

lemma trail_literal: "is_trail c \<Longrightarrow> c \<noteq> 0x22 \<and> c \<noteq> 0x5C \<and> \<not> c < 0x20"
  by (auto simp: is_trail_def word_le_nat_alt word_less_nat_alt)

lemma unquote_pair:
  "is_lead c \<Longrightarrow> is_trail d \<Longrightarrow>
   unquote_units (c # d # rest) = map_option (\<lambda>r. c # d # r) (unquote_units rest)"
  using lead_literal [of c] trail_literal [of d]
  by (simp add: unquote_literal option.map_comp comp_def del: unquote_units.simps)

lemma unquote_quote_units: "unquote_units (quote_units s @ [0x22]) = Some s"
proof (induction s rule: quote_units.induct)
  case 1
  then show ?case by simp
next
  case (2 c)
  have "unquote_units (quote_unit c @ [0x22]) = map_option ((#) c) (unquote_units [0x22])"
    by (rule unquote_quote_unit)
  then show ?case by simp
next
  case (3 c d cs)
  show ?case
  proof (cases "is_lead c \<and> is_trail d")
    case True
    then have q: "quote_units (c # d # cs) = c # d # quote_units cs" by simp
    have ih: "unquote_units (quote_units cs @ [0x22]) = Some cs"
      using "3.IH" (1) True by blast
    show ?thesis
      unfolding q using True ih by (simp add: unquote_pair del: unquote_units.simps)
  next
    case False
    then have q: "quote_units (c # d # cs) = quote_unit c @ quote_units (d # cs)" by auto
    have ih: "unquote_units (quote_units (d # cs) @ [0x22]) = Some (d # cs)"
      using "3.IH" (2) False by blast
    show ?thesis
      unfolding q using ih by (simp add: unquote_quote_unit del: unquote_units.simps)
  qed
qed

lemma JSON_parse_stringify: "JSON_parse_string (JSON_stringify (JStr s)) = Some s"
  using unquote_quote_units [of s]
  by (simp add: JSON_parse_string_def QuoteJSONString_def del: unquote_units.simps)

subsection \<open>UTF-8 read back\<close>

lemma unat_of_nat8: "n < 256 \<Longrightarrow> unat (word_of_nat n :: byte) = n"
  by (simp add: unat_of_nat)

lemma decode_1:
  "unat b < 0x80 \<Longrightarrow>
   TextDecoder_decode (b # rest) = map_option ((@) (cp_units (unat b))) (TextDecoder_decode rest)"
  by (simp add: word_less_nat_alt)

lemma decode_2:
  "0xC2 \<le> unat b0 \<Longrightarrow> unat b0 < 0xE0 \<Longrightarrow> 0x80 \<le> unat b1 \<Longrightarrow> unat b1 \<le> 0xBF \<Longrightarrow>
   TextDecoder_decode (b0 # b1 # rest) =
     map_option ((@) (cp_units (cp2 b0 b1))) (TextDecoder_decode rest)"
  by (simp add: word_less_nat_alt word_le_nat_alt is_cont_def)

lemma decode_3:
  "0xE0 \<le> unat b0 \<Longrightarrow> unat b0 < 0xF0 \<Longrightarrow> 0x80 \<le> unat b1 \<Longrightarrow> unat b1 \<le> 0xBF \<Longrightarrow>
   0x80 \<le> unat b2 \<Longrightarrow> unat b2 \<le> 0xBF \<Longrightarrow> 0x800 \<le> cp3 b0 b1 b2 \<Longrightarrow>
   cp3 b0 b1 b2 < 0xD800 \<or> 0xDFFF < cp3 b0 b1 b2 \<Longrightarrow>
   TextDecoder_decode (b0 # b1 # b2 # rest) =
     map_option ((@) (cp_units (cp3 b0 b1 b2))) (TextDecoder_decode rest)"
  by (simp add: word_less_nat_alt word_le_nat_alt is_cont_def)

lemma decode_4:
  "0xF0 \<le> unat b0 \<Longrightarrow> unat b0 < 0xF5 \<Longrightarrow> 0x80 \<le> unat b1 \<Longrightarrow> unat b1 \<le> 0xBF \<Longrightarrow>
   0x80 \<le> unat b2 \<Longrightarrow> unat b2 \<le> 0xBF \<Longrightarrow> 0x80 \<le> unat b3 \<Longrightarrow> unat b3 \<le> 0xBF \<Longrightarrow>
   0x10000 \<le> cp4 b0 b1 b2 b3 \<Longrightarrow> cp4 b0 b1 b2 b3 \<le> 0x10FFFF \<Longrightarrow>
   TextDecoder_decode (b0 # b1 # b2 # b3 # rest) =
     map_option ((@) (cp_units (cp4 b0 b1 b2 b3))) (TextDecoder_decode rest)"
  by (simp add: word_less_nat_alt word_le_nat_alt is_cont_def)


lemma split2: "(cp::nat) div 64 * 64 + cp mod 64 = cp"
  by (rule div_mult_mod_eq)

lemma split3: "(cp::nat) div 4096 * 4096 + cp div 64 mod 64 * 64 + cp mod 64 = cp"
proof -
  define q where "q = cp div 64"
  have e: "cp div 4096 = q div 64" unfolding q_def by (simp add: div_mult2_eq [symmetric])
  have "q * 64 = (q div 64 * 64 + q mod 64) * 64" by simp
  also have "\<dots> = q div 64 * 4096 + q mod 64 * 64" by (simp only: distrib_right mult.assoc)
  finally have "cp div 4096 * 4096 + q mod 64 * 64 = q * 64" unfolding e by simp
  then show ?thesis using split2 [of cp] unfolding q_def by simp
qed

lemma split4:
  "(cp::nat) div 262144 * 262144 + cp div 4096 mod 64 * 4096 + cp div 64 mod 64 * 64 + cp mod 64 = cp"
proof -
  define q where "q = cp div 4096"
  have e: "cp div 262144 = q div 64" unfolding q_def by (simp add: div_mult2_eq [symmetric])
  have "q * 4096 = (q div 64 * 64 + q mod 64) * 4096" by simp
  also have "\<dots> = q div 64 * 262144 + q mod 64 * 4096" by (simp only: distrib_right mult.assoc)
  finally have "cp div 262144 * 262144 + q mod 64 * 4096 = q * 4096" unfolding e by simp
  then show ?thesis using split3 [of cp] unfolding q_def by simp
qed

lemma decode_utf8_cp:
  assumes ns: "cp < 0xD800 \<or> 0xDFFF < cp" and le: "cp \<le> 0x10FFFF"
  shows "TextDecoder_decode (utf8_cp cp @ rest) =
           map_option ((@) (cp_units cp)) (TextDecoder_decode rest)"
proof -
  consider (a) "cp < 0x80" | (b) "0x80 \<le> cp" "cp < 0x800" | (c) "0x800 \<le> cp" "cp < 0x10000"
    | (d) "0x10000 \<le> cp"
    by linarith
  then show ?thesis
  proof cases
    case a
    define b0 :: byte where "b0 = of_nat cp"
    have u0: "unat b0 = cp" unfolding b0_def using a by (intro unat_of_nat8) simp
    have enc: "utf8_cp cp = [b0]" unfolding utf8_cp_def b0_def using a by simp
    show ?thesis
      unfolding enc using decode_1 [of b0 rest] a u0 by simp
  next
    case b
    define b0 :: byte where "b0 = of_nat (0xC0 + cp div 64)"
    define b1 :: byte where "b1 = of_nat (0x80 + cp mod 64)"
    have u0: "unat b0 = 0xC0 + cp div 64" unfolding b0_def using b by (intro unat_of_nat8) simp
    have u1: "unat b1 = 0x80 + cp mod 64" unfolding b1_def by (intro unat_of_nat8) simp
    have enc: "utf8_cp cp = [b0, b1]" unfolding utf8_cp_def b0_def b1_def using b by simp
    have cp: "cp2 b0 b1 = cp" using split2 [of cp] by (simp add: cp2_def u0 u1)
    have r0: "0xC2 \<le> unat b0" "unat b0 < 0xE0" using b unfolding u0 by simp_all
    have r1: "0x80 \<le> unat b1" "unat b1 \<le> 0xBF" unfolding u1 by simp_all
    show ?thesis
      unfolding enc using decode_2 [OF r0 r1, of rest] cp by simp
  next
    case c
    define b0 :: byte where "b0 = of_nat (0xE0 + cp div 4096)"
    define b1 :: byte where "b1 = of_nat (0x80 + cp div 64 mod 64)"
    define b2 :: byte where "b2 = of_nat (0x80 + cp mod 64)"
    have u0: "unat b0 = 0xE0 + cp div 4096" unfolding b0_def using c by (intro unat_of_nat8) simp
    have u1: "unat b1 = 0x80 + cp div 64 mod 64" unfolding b1_def by (intro unat_of_nat8) simp
    have u2: "unat b2 = 0x80 + cp mod 64" unfolding b2_def by (intro unat_of_nat8) simp
    have enc: "utf8_cp cp = [b0, b1, b2]" unfolding utf8_cp_def b0_def b1_def b2_def using c by simp
    have cp: "cp3 b0 b1 b2 = cp" using split3 [of cp] by (simp add: cp3_def u0 u1 u2)
    have r0: "0xE0 \<le> unat b0" "unat b0 < 0xF0" using c unfolding u0 by simp_all
    have r1: "0x80 \<le> unat b1" "unat b1 \<le> 0xBF" unfolding u1 by simp_all
    have r2: "0x80 \<le> unat b2" "unat b2 \<le> 0xBF" unfolding u2 by simp_all
    have lo: "0x800 \<le> cp3 b0 b1 b2" unfolding cp using c by simp
    have ns': "cp3 b0 b1 b2 < 0xD800 \<or> 0xDFFF < cp3 b0 b1 b2" unfolding cp using ns .
    show ?thesis
      unfolding enc using decode_3 [OF r0 r1 r2 lo ns', of rest] cp by simp
  next
    case d
    define b0 :: byte where "b0 = of_nat (0xF0 + cp div 262144)"
    define b1 :: byte where "b1 = of_nat (0x80 + cp div 4096 mod 64)"
    define b2 :: byte where "b2 = of_nat (0x80 + cp div 64 mod 64)"
    define b3 :: byte where "b3 = of_nat (0x80 + cp mod 64)"
    have u0: "unat b0 = 0xF0 + cp div 262144" unfolding b0_def using le by (intro unat_of_nat8) simp
    have u1: "unat b1 = 0x80 + cp div 4096 mod 64" unfolding b1_def by (intro unat_of_nat8) simp
    have u2: "unat b2 = 0x80 + cp div 64 mod 64" unfolding b2_def by (intro unat_of_nat8) simp
    have u3: "unat b3 = 0x80 + cp mod 64" unfolding b3_def by (intro unat_of_nat8) simp
    have enc: "utf8_cp cp = [b0, b1, b2, b3]"
      unfolding utf8_cp_def b0_def b1_def b2_def b3_def using d by simp
    have cp: "cp4 b0 b1 b2 b3 = cp" using split4 [of cp] by (simp add: cp4_def u0 u1 u2 u3)
    have r0: "0xF0 \<le> unat b0" "unat b0 < 0xF5" using le unfolding u0 by simp_all
    have r1: "0x80 \<le> unat b1" "unat b1 \<le> 0xBF" unfolding u1 by simp_all
    have r2: "0x80 \<le> unat b2" "unat b2 \<le> 0xBF" unfolding u2 by simp_all
    have r3: "0x80 \<le> unat b3" "unat b3 \<le> 0xBF" unfolding u3 by simp_all
    have lo: "0x10000 \<le> cp4 b0 b1 b2 b3" unfolding cp using d by simp
    have hi: "cp4 b0 b1 b2 b3 \<le> 0x10FFFF" unfolding cp using le .
    show ?thesis
      unfolding enc using decode_4 [OF r0 r1 r2 r3 lo hi, of rest] cp by simp
  qed
qed

lemma unat16_less: "unat (c :: utf16) < 65536"
  using unsigned_less [of c, where 'a = nat] by simp

lemma surrogate_iff: "is_surrogate c \<longleftrightarrow> is_lead c \<or> is_trail c"
  by (auto simp: is_surrogate_def is_lead_def is_trail_def word_le_nat_alt)

lemma cp_units_unit: "cp_units (unat (c :: utf16)) = [c]"
  using unat16_less [of c] by (simp add: cp_units_def)

lemma cp_units_pair:
  assumes "is_lead c" "is_trail d"
  shows "cp_units (pair_cp c d) = [c, d]"
proof -
  define h where "h = unat c - 0xD800"
  define l where "l = unat d - 0xDC00"
  have hc: "unat c = 0xD800 + h" and hlt: "h < 0x400"
    using assms(1) unfolding h_def is_lead_def word_le_nat_alt by auto
  have ld: "unat d = 0xDC00 + l" and llt: "l < 0x400"
    using assms(2) unfolding l_def is_trail_def word_le_nat_alt by auto
  have p: "pair_cp c d = 0x10000 + (h * 0x400 + l)"
    unfolding pair_cp_def h_def l_def by simp
  have dv: "(h * 0x400 + l) div 0x400 = h" using llt by simp
  have md: "(h * 0x400 + l) mod 0x400 = l" using llt by simp
  have c: "word_of_nat (0xD800 + h) = c" using hc [symmetric] by (simp del: of_nat_add of_nat_numeral)
  have d: "word_of_nat (0xDC00 + l) = d" using ld [symmetric] by (simp del: of_nat_add of_nat_numeral)
  have "cp_units (0x10000 + (h * 0x400 + l)) = [word_of_nat (0xD800 + h), word_of_nat (0xDC00 + l)]"
    unfolding cp_units_def using dv md by (simp del: of_nat_add of_nat_numeral)
  then show ?thesis unfolding p c d .
qed

lemma pair_cp_range:
  assumes "is_lead c" "is_trail d"
  shows "0xDFFF < pair_cp c d \<and> pair_cp c d \<le> 0x10FFFF"
  using assms unfolding pair_cp_def is_lead_def is_trail_def word_le_nat_alt by auto

lemma unit_cp_plain: "\<not> is_surrogate c \<Longrightarrow> unit_cp c = unat c"
  by (simp add: unit_cp_def surrogate_iff)

lemma plain_range:
  "\<not> is_surrogate c \<Longrightarrow> (unat c < 0xD800 \<or> 0xDFFF < unat c) \<and> unat c \<le> 0x10FFFF"
  using unat16_less [of c] by (auto simp: is_surrogate_def word_le_nat_alt)

lemma append_single: "(@) [c] = (#) c"
  by (rule ext) simp

lemma append_double: "(@) [c, d] = (\<lambda>r. c # d # r)"
  by (rule ext) simp

lemma decode_plain:
  "\<not> is_surrogate c \<Longrightarrow>
   TextDecoder_decode (utf8_cp (unit_cp c) @ rest) = map_option ((#) c) (TextDecoder_decode rest)"
  using decode_utf8_cp [of "unat c" rest] plain_range [of c]
  by (simp add: unit_cp_plain cp_units_unit append_single del: TextDecoder_decode.simps)

lemma decode_pair:
  "is_lead c \<Longrightarrow> is_trail d \<Longrightarrow>
   TextDecoder_decode (utf8_cp (pair_cp c d) @ rest) =
     map_option (\<lambda>r. c # d # r) (TextDecoder_decode rest)"
  using decode_utf8_cp [of "pair_cp c d" rest] pair_cp_range [of c d]
  by (simp add: cp_units_pair append_double del: TextDecoder_decode.simps)

lemma decode_encode: "wellformed s \<Longrightarrow> TextDecoder_decode (TextEncoder_encode s) = Some s"
proof (induction s rule: wellformed.induct)
  case 1
  then show ?case by simp
next
  case (2 c)
  then show ?case
    using decode_plain [of c "[]"] by simp
next
  case (3 c d cs)
  show ?case
  proof (cases "is_lead c \<and> is_trail d")
    case True
    then have wf: "wellformed cs" using "3.prems" by simp
    have ih: "TextDecoder_decode (TextEncoder_encode cs) = Some cs"
      using "3.IH" (1) True wf by blast
    have enc: "TextEncoder_encode (c # d # cs) = utf8_cp (pair_cp c d) @ TextEncoder_encode cs"
      using True by simp
    show ?thesis
      unfolding enc using True ih by (simp add: decode_pair del: TextDecoder_decode.simps)
  next
    case False
    then have ns: "\<not> is_surrogate c" and wf: "wellformed (d # cs)"
      using "3.prems" by (auto split: if_splits)
    have ih: "TextDecoder_decode (TextEncoder_encode (d # cs)) = Some (d # cs)"
      using "3.IH" (2) False ns wf by blast
    have enc: "TextEncoder_encode (c # d # cs) = utf8_cp (unit_cp c) @ TextEncoder_encode (d # cs)"
      using False by auto
    show ?thesis
      unfolding enc using ns ih by (simp add: decode_plain del: TextDecoder_decode.simps)
  qed
qed

lemma wellformed_Cons_plain: "\<not> is_surrogate c \<Longrightarrow> wellformed (c # s) = wellformed s"
  by (cases s) (auto simp: surrogate_iff)

lemma wellformed_append: "wellformed a \<Longrightarrow> wellformed b \<Longrightarrow> wellformed (a @ b)"
proof (induction a rule: wellformed.induct)
  case 1
  then show ?case by simp
next
  case (2 c)
  then show ?case by (simp add: wellformed_Cons_plain)
next
  case (3 c d cs)
  show ?case
  proof (cases "is_lead c \<and> is_trail d")
    case True
    with 3 show ?thesis by simp
  next
    case False
    then have ns: "\<not> is_surrogate c" and wf: "wellformed (d # cs)"
      using "3.prems" (1) by (auto split: if_splits)
    have "wellformed ((d # cs) @ b)"
      using "3.IH" (2) False ns wf "3.prems" (2) by blast
    then show ?thesis using ns by (simp add: surrogate_iff)
  qed
qed

lemma ascii_wellformed: "ascii s \<Longrightarrow> wellformed s"
proof (induction s)
  case Nil
  then show ?case by simp
next
  case (Cons c s)
  then have "\<not> is_surrogate c"
    by (auto simp: ascii_def is_surrogate_def word_le_nat_alt word_less_nat_alt)
  with Cons show ?case by (simp add: wellformed_Cons_plain ascii_def)
qed

subsection \<open>The frames are well-formed text\<close>

lemma ascii_append [simp]: "ascii (a @ b) \<longleftrightarrow> ascii a \<and> ascii b"
  by (simp add: ascii_def)

lemma ascii_hexdigit: "d < 16 \<Longrightarrow> hexdigit d < 0x80"
  by (simp add: word_less_nat_alt unat_hexdigit)

lemma ascii_unicode_escape: "ascii (unicode_escape c)"
proof -
  have "unat c div 4096 < 16" using unat16_less [of c] by simp
  then show ?thesis
    by (simp add: ascii_def unicode_escape_def ascii_hexdigit)
qed

lemma wellformed_quote_unit: "wellformed (quote_unit c)"
proof (cases "quote_unit c = [c]")
  case True
  then have "\<not> is_lead c \<and> \<not> is_trail c"
    by (auto simp: quote_unit_def unicode_escape_def split: if_splits)
  then show ?thesis using True by (simp add: surrogate_iff)
next
  case False
  then have "ascii (quote_unit c)"
    using ascii_unicode_escape [of c]
    by (auto simp: quote_unit_def ascii_def split: if_splits)
  then show ?thesis by (rule ascii_wellformed)
qed

lemma wellformed_quote_units: "wellformed (quote_units s)"
proof (induction s rule: quote_units.induct)
  case 1
  then show ?case by simp
next
  case (2 c)
  then show ?case by (simp add: wellformed_quote_unit)
next
  case (3 c d cs)
  show ?case
  proof (cases "is_lead c \<and> is_trail d")
    case True
    with 3 show ?thesis by simp
  next
    case False
    then have q: "quote_units (c # d # cs) = quote_unit c @ quote_units (d # cs)" by auto
    have "wellformed (quote_units (d # cs))" using "3.IH" (2) False by blast
    then show ?thesis
      unfolding q using wellformed_quote_unit [of c] by (rule wellformed_append [rotated])
  qed
qed

lemma ascii_digits: "ascii (digits n)"
proof (induction n rule: digits.induct)
  case (1 n)
  show ?case
  proof (cases "n < 10")
    case True
    then have "unat (word_of_nat (48 + n) :: utf16) = 48 + n"
      by (intro unat_of_nat16) simp
    then have "(word_of_nat (48 + n) :: utf16) < 0x80"
      using True unfolding word_less_nat_alt by simp
    then show ?thesis
      using True by (simp add: digits.simps [of n] ascii_def del: of_nat_add of_nat_numeral)
  next
    case False
    have "unat (word_of_nat (48 + n mod 10) :: utf16) = 48 + n mod 10"
      by (intro unat_of_nat16) simp
    then have "(word_of_nat (48 + n mod 10) :: utf16) < 0x80"
      unfolding word_less_nat_alt by simp
    then have "ascii [word_of_nat (48 + n mod 10) :: utf16]"
      by (simp add: ascii_def del: of_nat_add of_nat_numeral)
    then show ?thesis
      using False "1.IH" by (simp add: digits.simps [of n] del: of_nat_add of_nat_numeral)
  qed
qed

lemma wellformed_content_frame: "wellformed (content_frame c)"
proof -
  have a: "wellformed (str ''0:'' @ [0x22])" by (simp add: str_def surrogate_iff is_lead_def is_trail_def is_surrogate_def)
  have b: "wellformed ([0x22, LF] :: jsstring)" by (simp add: LF_def is_lead_def is_trail_def is_surrogate_def)
  have "wellformed ((str ''0:'' @ [0x22]) @ quote_units c @ [0x22, LF])"
    by (intro wellformed_append a b wellformed_quote_units)
  then show ?thesis
    by (simp add: content_frame_def QuoteJSONString_def)
qed

subsection \<open>Reading the frames back\<close>

lemma int_to_string_nat: "int_to_string (int n) = digits n"
  by (simp add: int_to_string_def)

lemma digits_10: "digits 10 = str ''10''"
  by (simp add: digits.simps [of 10] digits.simps [of "Suc 0"] str_def)

lemma sint_ten: "sint (10 :: safe_int) = 10"
  by simp

lemma sint_length: "n < 2 ^ 53 \<Longrightarrow> sint (word_of_nat n :: safe_int) = int n"
proof -
  assume "n < 2 ^ 53"
  then have "int n < 2 ^ 53" by (metis of_nat_less_numeral_power_cancel_iff)
  then have "signed_take_bit 53 (int n) = int n"
    by (intro signed_take_bit_int_eq_self) simp_all
  then show ?thesis
    by (simp add: signed_of_nat)
qed

lemma length_text:
  "n < 2 ^ 53 \<Longrightarrow> int_to_string (sint (word_of_nat n :: safe_int)) = digits n"
  by (simp add: sint_length int_to_string_nat)

lemma finish_frame_text:
  "finish_frame message =
     0x65 # 0x3A # (str ''{'' @ QuoteJSONString (str ''finishReason'') @ str '':''
       @ QuoteJSONString (str ''stop'') @ str '','' @ QuoteJSONString (str ''usage'') @ str '':{''
       @ QuoteJSONString (str ''promptTokens'') @ str '':10,''
       @ QuoteJSONString (str ''completionTokens'') @ str '':''
       @ int_to_string (sint (word_of_nat (length message) :: safe_int))
       @ str ''},'' @ QuoteJSONString (str ''isContinued'') @ str '':false}'') @ [LF]"
  by (simp add: finish_frame_def finish_object_def usage_def str_def
      int_to_string_def [of 10] digits_10 del: of_nat_numeral)

lemma done_frame_text:
  "done_frame message =
     0x64 # 0x3A # (str ''{'' @ QuoteJSONString (str ''finishReason'') @ str '':''
       @ QuoteJSONString (str ''stop'') @ str '','' @ QuoteJSONString (str ''usage'') @ str '':{''
       @ QuoteJSONString (str ''promptTokens'') @ str '':10,''
       @ QuoteJSONString (str ''completionTokens'') @ str '':''
       @ int_to_string (sint (word_of_nat (length message) :: safe_int))
       @ str ''}}'') @ [LF]"
  by (simp add: done_frame_def done_object_def usage_def str_def
      int_to_string_def [of 10] digits_10 del: of_nat_numeral)

lemma ascii_Cons [simp]: "ascii (c # s) \<longleftrightarrow> c < 0x80 \<and> ascii s"
  by (simp add: ascii_def)

lemma ascii_Nil [simp]: "ascii []"
  by (simp add: ascii_def)

lemma ascii_int_to_string: "ascii (int_to_string i)"
  by (simp add: int_to_string_def ascii_digits str_def)

lemma ascii_finish_frame: "ascii (finish_frame message)"
  unfolding finish_frame_text
  by (simp add: ascii_int_to_string QuoteJSONString_def str_def LF_def quote_unit_def is_lead_def
      is_trail_def)

lemma ascii_done_frame: "ascii (done_frame message)"
  unfolding done_frame_text
  by (simp add: ascii_int_to_string QuoteJSONString_def str_def LF_def quote_unit_def is_lead_def
      is_trail_def)

lemma read_frame_encode:
  "wellformed (tag # 0x3A # payload @ [LF]) \<Longrightarrow>
   read_frame (TextEncoder_encode (tag # 0x3A # payload @ [LF])) = Some (tag, payload)"
proof -
  assume "wellformed (tag # 0x3A # payload @ [LF])"
  then have "TextDecoder_decode (TextEncoder_encode (tag # 0x3A # payload @ [LF])) =
      Some (tag # 0x3A # payload @ [LF])"
    by (rule decode_encode)
  then show ?thesis
    by (simp add: read_frame_def del: TextEncoder_encode.simps)
qed

lemma read_content_frame:
  "read_frame (TextEncoder_encode (content_frame c)) = Some (0x30, JSON_stringify (JStr c))"
proof -
  have e: "content_frame c = 0x30 # 0x3A # JSON_stringify (JStr c) @ [LF]"
    by (simp add: content_frame_def str_def)
  show ?thesis
    using wellformed_content_frame [of c] unfolding e by (rule read_frame_encode)
qed

lemma read_finish_frame:
  "read_frame (TextEncoder_encode (finish_frame message)) =
     Some (0x65, JSON_stringify (finish_object message))"
proof -
  have e: "finish_frame message = 0x65 # 0x3A # JSON_stringify (finish_object message) @ [LF]"
    by (simp add: finish_frame_def str_def)
  have "wellformed (finish_frame message)"
    by (rule ascii_wellformed) (rule ascii_finish_frame)
  then show ?thesis
    unfolding e by (rule read_frame_encode)
qed

lemma read_done_frame:
  "read_frame (TextEncoder_encode (done_frame message)) =
     Some (0x64, JSON_stringify (done_object message))"
proof -
  have e: "done_frame message = 0x64 # 0x3A # JSON_stringify (done_object message) @ [LF]"
    by (simp add: done_frame_def str_def)
  have "wellformed (done_frame message)"
    by (rule ascii_wellformed) (rule ascii_done_frame)
  then show ?thesis
    unfolding e by (rule read_frame_encode)
qed

lemma content_text_frames:
  "content_text (map (\<lambda>c. TextEncoder_encode (content_frame c)) cs @ rest) =
     map_option ((@) (concat cs)) (content_text rest)"
proof (induction cs)
  case Nil
  show ?case by (simp add: option.map_ident cong: option.map_cong)
next
  case (Cons c cs)
  then show ?case
    by (simp add: read_content_frame JSON_parse_stringify option.map_comp comp_def
        del: JSON_stringify.simps)
qed

lemma frame_tags_frames:
  "frame_tags (map (\<lambda>c. TextEncoder_encode (content_frame c)) cs @ rest) =
     replicate (length cs) (Some 0x30) @ frame_tags rest"
  by (induction cs) (simp_all add: read_content_frame del: JSON_stringify.simps)

subsection \<open>Stream framing\<close>

lemma frame_tags_tail:
  "frame_tags [TextEncoder_encode (finish_frame m), TextEncoder_encode (done_frame m)] =
     [Some 0x65, Some 0x64]"
  by (simp add: read_finish_frame read_done_frame del: JSON_stringify.simps)

lemma content_text_tail:
  "content_text [TextEncoder_encode (finish_frame m), TextEncoder_encode (done_frame m)] = Some []"
  by (simp add: read_finish_frame read_done_frame del: JSON_stringify.simps)

lemma encoded_frames:
  "map TextEncoder_encode (stream_frames m) =
     map (\<lambda>c. TextEncoder_encode (content_frame c)) (resuffix (str_split m LF))
     @ [TextEncoder_encode (finish_frame m), TextEncoder_encode (done_frame m)]"
  by (simp add: stream_frames_def comp_def)

text \<open>
  C1. For every response message the stream is exactly: one \<^verbatim>\<open>0:\<close> frame per line of the
  message, each line but the last with its line feed put back and each payload the
  JSON encoding of that piece; then one \<^verbatim>\<open>e:\<close> frame; then one \<^verbatim>\<open>d:\<close> frame; then the
  stream is closed, so that a further frame is refused. Read back (UTF-8 decoded, tag
  and payload split, the \<^verbatim>\<open>0:\<close> payloads JSON-decoded and concatenated in order) the
  frames give the message again.
\<close>

theorem stream_framing_roundtrip:
  "ReadableStream message =
     Inr \<lparr>chunks = map TextEncoder_encode (stream_frames message), close_requested = True\<rparr>
   \<and> map read_frame (map TextEncoder_encode (stream_frames message)) =
       map (\<lambda>c. Some (0x30, JSON_stringify (JStr c))) (resuffix (str_split message LF))
       @ [Some (0x65, JSON_stringify (finish_object message)),
          Some (0x64, JSON_stringify (done_object message))]
   \<and> length (resuffix (str_split message LF)) = length (str_split message LF)
   \<and> concat (resuffix (str_split message LF)) = message
   \<and> content_text (map TextEncoder_encode (stream_frames message)) = Some message
   \<and> frame_tags (map TextEncoder_encode (stream_frames message)) =
       replicate (length (str_split message LF)) (Some 0x30) @ [Some 0x65, Some 0x64]
   \<and> enqueue chunk
         \<lparr>chunks = map TextEncoder_encode (stream_frames message), close_requested = True\<rparr> =
       Inl ClosedController"
proof -
  have a: "map read_frame (map TextEncoder_encode (stream_frames message)) =
       map (\<lambda>c. Some (0x30, JSON_stringify (JStr c))) (resuffix (str_split message LF))
       @ [Some (0x65, JSON_stringify (finish_object message)),
          Some (0x64, JSON_stringify (done_object message))]"
    by (simp add: stream_frames_def comp_def read_content_frame read_finish_frame read_done_frame
        del: JSON_stringify.simps)
  have b: "content_text (map TextEncoder_encode (stream_frames message)) = Some message"
    unfolding encoded_frames content_text_frames content_text_tail
    by (simp add: concat_resuffix_split)
  have c: "frame_tags (map TextEncoder_encode (stream_frames message)) =
       replicate (length (str_split message LF)) (Some 0x30) @ [Some 0x65, Some 0x64]"
    unfolding encoded_frames frame_tags_frames frame_tags_tail
    by (simp add: length_resuffix)
  have d: "enqueue chunk
         \<lparr>chunks = map TextEncoder_encode (stream_frames message), close_requested = True\<rparr> =
       Inl ClosedController"
    by (simp add: enqueue_def)
  show ?thesis
    using ReadableStream_chunks [of message] a b c d length_resuffix [of "str_split message LF"]
      concat_resuffix_split [of message]
    by blast
qed

theorem stream_framing_roundtrip_witness:
  "stream_frames three_lines =
     [content_frame (str ''a'' @ [LF]), content_frame (str ''b'' @ [LF]), content_frame (str ''c''),
      finish_frame three_lines, done_frame three_lines]
   \<and> content_text (map TextEncoder_encode (stream_frames three_lines)) = Some three_lines
   \<and> frame_tags (map TextEncoder_encode (stream_frames three_lines)) =
       [Some 0x30, Some 0x30, Some 0x30, Some 0x65, Some 0x64]
   \<and> TextEncoder_encode (content_frame (str ''a'' @ [LF])) = [0x30, 0x3A, 0x22, 0x61, 0x5C, 0x6E, 0x22, 0x0A]"
proof -
  have s: "str_split three_lines LF = [str ''a'', str ''b'', str ''c'']"
    by (simp add: three_lines_def str_def LF_def)
  have f: "stream_frames three_lines =
     [content_frame (str ''a'' @ [LF]), content_frame (str ''b'' @ [LF]), content_frame (str ''c''),
      finish_frame three_lines, done_frame three_lines]"
    by (simp add: stream_frames_def s)
  have e: "TextEncoder_encode (content_frame (str ''a'' @ [LF])) = [0x30, 0x3A, 0x22, 0x61, 0x5C, 0x6E, 0x22, 0x0A]"
    by (simp add: content_frame_def QuoteJSONString_def quote_unit_def str_def LF_def is_lead_def
        is_trail_def unit_cp_def utf8_cp_def)
  note t = stream_framing_roundtrip [of three_lines "[]"]
  have ct: "content_text (map TextEncoder_encode (stream_frames three_lines)) = Some three_lines"
    using t by blast
  have ft: "frame_tags (map TextEncoder_encode (stream_frames three_lines)) =
       replicate (length (str_split three_lines LF)) (Some 0x30) @ [Some 0x65, Some 0x64]"
    using t by blast
  have n: "replicate (length (str_split three_lines LF)) (Some (0x30 :: utf16)) =
       [Some 0x30, Some 0x30, Some 0x30]"
    by (simp add: s)
  from f e ct ft [unfolded n] show ?thesis by simp
qed

subsection \<open>The sample request, step by step\<close>

lemmas digits_numeral = digits.simps [of "numeral k" for k]

lemma digits_small: "digits 0 = str ''0''" "digits 1 = str ''1''" "digits (Suc 0) = str ''1''"
  by (simp_all add: digits.simps [of 0] digits.simps [of 1] digits.simps [of "Suc 0"] str_def)

lemma sample_chat: "getChatId (data sample_request) (messages sample_request) = str ''chat42''"
  by (simp add: getChatId_def sample_request_def str_def)

lemma sample_image: "first_image (data sample_request) = Some (str ''data:image/png;base64,QUJD'')"
  by (simp add: sample_request_def)

lemma sample_exec:
  "data_url_exec (str ''data:image/png;base64,QUJD'') = Some (str ''image/png'', str ''QUJD'')"
  by (simp add: data_url_exec_def base64_tail_def dot_def is_line_terminator_def str_def)

lemma sample_buffer: "Buffer_from_base64 (str ''QUJD'') = [0x41, 0x42, 0x43]"
  by (simp add: Buffer_from_base64_def unbase64_def str_def)

lemma sample_resolve:
  "resolve_image w (str ''data:image/png;base64,QUJD'') = ([], Inr ([0x41, 0x42, 0x43], Some (str ''image/png'')))"
  by (simp add: resolve_image_def parseDataUrl_def sample_exec sample_buffer)
    (simp add: startsWith_def str_def)

lemma sample_key:
  "object_key sample_world (str ''chat42'') (Some (str ''image/png'')) =
     str ''chat42/original/1700000000000.png''"
  by (simp add: object_key_def sample_world_def guessExtFromContentType_def digits_numeral
      digits_small str_def)


lemma sample_text:
  "success_message w sample_detection =
     Inr (success_template (str ''3'') (str ''cat, dog, car'') (str ''abc123''))"
proof -
  have c: "slot_text (get_own sample_detection (str ''detection_count'')) = Some (str ''3'')"
    by (simp add: sample_detection_def str_def int_to_string_def digits_numeral digits_small)
  have l: "labels_joined w (get_own sample_detection (str ''labels'')) = Inr (str ''cat, dog, car'')"
    by (simp add: sample_detection_def str_def array_join_def)
  have u: "slot_text (get_own sample_detection (str ''prediction_uid'')) = Some (str ''abc123'')"
    by (simp add: sample_detection_def str_def)
  have n: "\<not> is_null sample_detection"
    by (simp add: sample_detection_def)
  show ?thesis
    by (simp add: success_message_def c l u n)
qed

lemma sample_uri:
  "encodeURIComponent (str ''chat42/original/1700000000000.png'') =
     Some (str ''chat42%2Foriginal%2F1700000000000.png'')"
  "encodeURIComponent (str ''chat42'') = Some (str ''chat42'')"
  by (simp_all add: str_def uri_unreserved_def percent_cp_def utf8_cp_def percent_byte_def
      upper_hexdigit_def is_lead_def is_trail_def)

lemma sample_predict:
  "predict sample_world (str ''chat42/original/1700000000000.png'') (str ''chat42'') =
     ([Fetch sample_url (Some (str ''POST''))],
      Inr (success_template (str ''3'') (str ''cat, dog, car'') (str ''abc123'')))"
proof -
  have y: "YOLO_SERVICE sample_world = Some (str ''yolo:8080'')"
    and f: "fetch sample_world = (\<lambda>url method. Inr sample_response)"
    by (simp_all add: sample_world_def)
  have r: "ok sample_response" "body_json sample_response = Inr sample_detection"
    by (simp_all add: sample_response_def)
  have u: "str ''http://'' @ str ''yolo:8080'' @ str ''/predict?img=''
      @ str ''chat42%2Foriginal%2F1700000000000.png'' @ str ''&chat_id='' @ str ''chat42'' = sample_url"
    by (simp add: sample_url_def str_def)
  show ?thesis
    by (simp add: predict_def sample_uri y f r sample_text u)
qed

lemma sample_put_command:
  "put_command sample_world (str ''chat42/original/1700000000000.png'') [0x41, 0x42, 0x43]
     (Some (str ''image/png'')) = sample_put"
  by (simp add: put_command_def sample_put_def sample_world_def str_def)

lemma sample_detect:
  "detect sample_world (str ''chat42'') (str ''data:image/png;base64,QUJD'') =
     ([S3Send sample_put, Fetch sample_url (Some (str ''POST''))],
      Inr (success_template (str ''3'') (str ''cat, dog, car'') (str ''abc123'')))"
proof -
  have s: "s3_send sample_world = (\<lambda>put. Inr ())" by (simp add: sample_world_def)
  show ?thesis
    by (simp add: detect_def sample_resolve sample_key sample_put_command s sample_predict)
qed

lemma sample_outcome:
  "calls (POST sample_world sample_request) = [S3Send sample_put, Fetch sample_url (Some (str ''POST''))]"
  "reply (POST sample_world sample_request) =
     success_template (str ''3'') (str ''cat, dog, car'') (str ''abc123'')"
  by (simp_all add: POST_def respond_def sample_chat sample_image sample_detect)

lemma sample_length:
  "length (success_template (str ''3'') (str ''cat, dog, car'') (str ''abc123'')) = 214"
  by (simp add: success_template_def str_def)

subsection \<open>Token accounting\<close>

lemma body_POST: "body (POST w req) = ReadableStream (reply (POST w req))"
  by (simp add: POST_def split: prod.splits)

lemma body_POST_cookie: "body (POST_cookie w sw req) = ReadableStream (reply (POST_cookie w sw req))"
  by (simp add: POST_cookie_def split: prod.splits)

lemma sent_POST:
  "sent_chunks (body (POST w req)) =
     map (\<lambda>c. TextEncoder_encode (content_frame c)) (resuffix (str_split (reply (POST w req)) LF))
     @ [TextEncoder_encode (finish_frame (reply (POST w req))),
        TextEncoder_encode (done_frame (reply (POST w req)))]"
  by (simp add: body_POST ReadableStream_chunks encoded_frames)

lemma sent_POST_cookie:
  "sent_chunks (body (POST_cookie w sw req)) =
     map (\<lambda>c. TextEncoder_encode (content_frame c))
       (resuffix (str_split (reply (POST_cookie w sw req)) LF))
     @ [TextEncoder_encode (finish_frame (reply (POST_cookie w sw req))),
        TextEncoder_encode (done_frame (reply (POST_cookie w sw req)))]"
  by (simp add: body_POST_cookie ReadableStream_chunks encoded_frames)

lemma frames_tagged_content:
  "t \<noteq> 0x30 \<Longrightarrow>
   frames_tagged t (map (\<lambda>c. TextEncoder_encode (content_frame c)) cs @ rest) =
     frames_tagged t rest"
  by (induction cs) (simp_all add: read_content_frame del: JSON_stringify.simps)

lemma frames_tagged_closing:
  "frames_tagged 0x65 [TextEncoder_encode (finish_frame m), TextEncoder_encode (done_frame m)] =
     [JSON_stringify (finish_object m)]"
  "frames_tagged 0x64 [TextEncoder_encode (finish_frame m), TextEncoder_encode (done_frame m)] =
     [JSON_stringify (done_object m)]"
  by (simp_all add: read_finish_frame read_done_frame del: JSON_stringify.simps)

lemma closing_payloads:
  "frames_tagged 0x65 (sent_chunks (body (POST w req))) =
     [JSON_stringify (finish_object (reply (POST w req)))]"
  "frames_tagged 0x64 (sent_chunks (body (POST w req))) =
     [JSON_stringify (done_object (reply (POST w req)))]"
  "frames_tagged 0x65 (sent_chunks (body (POST_cookie w sw req))) =
     [JSON_stringify (finish_object (reply (POST_cookie w sw req)))]"
  "frames_tagged 0x64 (sent_chunks (body (POST_cookie w sw req))) =
     [JSON_stringify (done_object (reply (POST_cookie w sw req)))]"
  unfolding sent_POST sent_POST_cookie
  by (simp_all add: frames_tagged_content frames_tagged_closing
      del: JSON_stringify.simps frames_tagged.simps)

lemma is_digit_digits: "list_all is_digit (digits n)"
proof (induction n rule: digits.induct)
  case (1 n)
  have d: "is_digit (word_of_nat (48 + k) :: utf16)" if "k < 10" for k
  proof -
    have "unat (word_of_nat (48 + k) :: utf16) = 48 + k"
      using that by (intro unat_of_nat16) simp
    then show ?thesis
      using that unfolding is_digit_def word_le_nat_alt by simp
  qed
  show ?case
  proof (cases "n < 10")
    case True
    then show ?thesis
      using d [of n] by (simp add: digits.simps [of n] del: of_nat_add of_nat_numeral)
  next
    case False
    then show ?thesis
      using d [of "n mod 10"] "1.IH"
      by (simp add: digits.simps [of n] del: of_nat_add of_nat_numeral)
  qed
qed

lemma digits_not_Nil: "digits n \<noteq> []"
  by (simp add: digits.simps [of n])

lemma decimal_value_digits: "decimal_value (digits n) = n"
proof (induction n rule: digits.induct)
  case (1 n)
  have u: "unat (word_of_nat (48 + k) :: utf16) - 48 = k" if "k < 10" for k
  proof -
    have "unat (word_of_nat (48 + k) :: utf16) = 48 + k"
      using that by (intro unat_of_nat16) simp
    then show ?thesis by simp
  qed
  show ?case
  proof (cases "n < 10")
    case True
    then show ?thesis
      using u [of n]
      by (simp add: digits.simps [of n] decimal_value_def del: of_nat_add of_nat_numeral)
  next
    case False
    then have "decimal_value (digits (n div 10)) = n div 10"
      using "1.IH" by simp
    then show ?thesis
      using False u [of "n mod 10"]
      by (simp add: digits.simps [of n] decimal_value_def del: of_nat_add of_nat_numeral)
  qed
qed

lemma takeWhile_digits:
  "\<not> is_digit c \<Longrightarrow> takeWhile is_digit (digits n @ c # r) = digits n"
  using is_digit_digits [of n] by (simp add: takeWhile_append2 list_all_iff)

lemma finish_payload_text:
  "JSON_stringify (finish_object message) =
     (str ''{'' @ QuoteJSONString (str ''finishReason'') @ str '':''
       @ QuoteJSONString (str ''stop'') @ str '','' @ QuoteJSONString (str ''usage'') @ str '':{'')
     @ (QuoteJSONString (str ''promptTokens'') @ str '':10,'')
     @ (QuoteJSONString (str ''completionTokens'') @ str '':''
        @ int_to_string (sint (word_of_nat (length message) :: safe_int)) @ str ''}'')
     @ (str '','' @ QuoteJSONString (str ''isContinued'') @ str '':false}'')"
  by (simp add: finish_object_def usage_def str_def int_to_string_def [of 10] digits_10
      del: of_nat_numeral)

lemma done_payload_text:
  "JSON_stringify (done_object message) =
     (str ''{'' @ QuoteJSONString (str ''finishReason'') @ str '':''
       @ QuoteJSONString (str ''stop'') @ str '','' @ QuoteJSONString (str ''usage'') @ str '':{'')
     @ (QuoteJSONString (str ''promptTokens'') @ str '':10,'')
     @ (QuoteJSONString (str ''completionTokens'') @ str '':''
        @ int_to_string (sint (word_of_nat (length message) :: safe_int)) @ str ''}'')
     @ str ''}''"
  by (simp add: done_object_def usage_def str_def int_to_string_def [of 10] digits_10
      del: of_nat_numeral)

lemmas quote_literal =
  QuoteJSONString_def quote_unit_def is_lead_def is_trail_def str_def

lemma completion_field:
  assumes "length message < 2 ^ 53"
  shows "number_field (str ''completionTokens'') (JSON_stringify (finish_object message)) =
           Some (length message)"
    and "number_field (str ''completionTokens'') (JSON_stringify (done_object message)) =
           Some (length message)"
proof -
  have nd: "\<not> is_digit 0x7D" by (simp add: is_digit_def)
  have a: "text_after ([0x22] @ str ''completionTokens'' @ [0x22, 0x3A])
        (JSON_stringify (finish_object message)) =
      Some (digits (length message) @ 0x7D # (str '','' @ QuoteJSONString (str ''isContinued'')
        @ str '':false}''))"
    unfolding finish_payload_text length_text [OF assms]
    by (simp add: quote_literal)
  have b: "text_after ([0x22] @ str ''completionTokens'' @ [0x22, 0x3A])
        (JSON_stringify (done_object message)) =
      Some (digits (length message) @ 0x7D # str ''}'')"
    unfolding done_payload_text length_text [OF assms]
    by (simp add: quote_literal)
  show "number_field (str ''completionTokens'') (JSON_stringify (finish_object message)) =
           Some (length message)"
    unfolding number_field_def a
    by (simp add: takeWhile_digits [OF nd] digits_not_Nil decimal_value_digits)
  show "number_field (str ''completionTokens'') (JSON_stringify (done_object message)) =
           Some (length message)"
    unfolding number_field_def b
    by (simp add: takeWhile_digits [OF nd] digits_not_Nil decimal_value_digits)
qed

lemma prompt_field:
  "number_field (str ''promptTokens'') (JSON_stringify (finish_object message)) = Some 10"
  "number_field (str ''promptTokens'') (JSON_stringify (done_object message)) = Some 10"
  unfolding finish_payload_text done_payload_text
  by (simp_all add: number_field_def quote_literal is_digit_def decimal_value_def)

text \<open>
  C2. Every response, of either route, carries exactly one \<^verbatim>\<open>e:\<close> frame and exactly one
  \<^verbatim>\<open>d:\<close> frame, and their payloads are the two objects of the source built for the
  response message. In both, the \<^verbatim>\<open>completionTokens\<close> field of \<^verbatim>\<open>usage\<close> is the length of
  that message, counted as \<^verbatim>\<open>message.length\<close> counts it, in UTF-16 code units; and for
  a message of fewer than \<open>2 ^ 53\<close> units, as every JavaScript string is, the decimal
  number read off the wire after the field's name is that length.
\<close>

theorem completion_tokens_is_length:
  "frames_tagged 0x65 (sent_chunks (body (POST w req))) =
     [JSON_stringify (finish_object (reply (POST w req)))]
   \<and> frames_tagged 0x64 (sent_chunks (body (POST w req))) =
     [JSON_stringify (done_object (reply (POST w req)))]
   \<and> frames_tagged 0x65 (sent_chunks (body (POST_cookie w sw req))) =
     [JSON_stringify (finish_object (reply (POST_cookie w sw req)))]
   \<and> frames_tagged 0x64 (sent_chunks (body (POST_cookie w sw req))) =
     [JSON_stringify (done_object (reply (POST_cookie w sw req)))]
   \<and> usage_field (finish_object message) (str ''completionTokens'') =
     Some (JNum (of_nat (length message)))
   \<and> usage_field (done_object message) (str ''completionTokens'') =
     Some (JNum (of_nat (length message)))
   \<and> (length (reply (POST w req)) < 2 ^ 53 \<longrightarrow>
        map (number_field (str ''completionTokens''))
          (frames_tagged 0x65 (sent_chunks (body (POST w req)))) =
          [Some (length (reply (POST w req)))]
        \<and> map (number_field (str ''completionTokens''))
          (frames_tagged 0x64 (sent_chunks (body (POST w req)))) =
          [Some (length (reply (POST w req)))])
   \<and> (length (reply (POST_cookie w sw req)) < 2 ^ 53 \<longrightarrow>
        map (number_field (str ''completionTokens''))
          (frames_tagged 0x65 (sent_chunks (body (POST_cookie w sw req)))) =
          [Some (length (reply (POST_cookie w sw req)))]
        \<and> map (number_field (str ''completionTokens''))
          (frames_tagged 0x64 (sent_chunks (body (POST_cookie w sw req)))) =
          [Some (length (reply (POST_cookie w sw req)))])"
proof -
  have e: "usage_field (finish_object message) (str ''completionTokens'') =
      Some (JNum (of_nat (length message)))"
    by (simp add: usage_field_def finish_object_def usage_def str_def)
  have d: "usage_field (done_object message) (str ''completionTokens'') =
      Some (JNum (of_nat (length message)))"
    by (simp add: usage_field_def done_object_def usage_def str_def)
  have p: "length (reply (POST w req)) < 2 ^ 53 \<longrightarrow>
        map (number_field (str ''completionTokens''))
          (frames_tagged 0x65 (sent_chunks (body (POST w req)))) =
          [Some (length (reply (POST w req)))]
        \<and> map (number_field (str ''completionTokens''))
          (frames_tagged 0x64 (sent_chunks (body (POST w req)))) =
          [Some (length (reply (POST w req)))]"
    unfolding closing_payloads by (simp add: completion_field del: JSON_stringify.simps)
  have c: "length (reply (POST_cookie w sw req)) < 2 ^ 53 \<longrightarrow>
        map (number_field (str ''completionTokens''))
          (frames_tagged 0x65 (sent_chunks (body (POST_cookie w sw req)))) =
          [Some (length (reply (POST_cookie w sw req)))]
        \<and> map (number_field (str ''completionTokens''))
          (frames_tagged 0x64 (sent_chunks (body (POST_cookie w sw req)))) =
          [Some (length (reply (POST_cookie w sw req)))]"
    unfolding closing_payloads by (simp add: completion_field del: JSON_stringify.simps)
  from closing_payloads (1) [of w req] closing_payloads (2) [of w req]
    closing_payloads (3) [of w sw req] closing_payloads (4) [of w sw req] e d p c
  show ?thesis by blast
qed

theorem completion_tokens_is_length_witness:
  "length (reply (POST sample_world sample_request)) = 214
   \<and> map (number_field (str ''completionTokens''))
       (frames_tagged 0x65 (sent_chunks (body (POST sample_world sample_request)))) = [Some 214]
   \<and> map (number_field (str ''completionTokens''))
       (frames_tagged 0x64 (sent_chunks (body (POST sample_world sample_request)))) = [Some 214]
   \<and> usage_field (finish_object (reply (POST sample_world sample_request)))
       (str ''completionTokens'') = Some (JNum 214)"
proof -
  note t = completion_tokens_is_length [of sample_world sample_request first_visit
      "reply (POST sample_world sample_request)"]
  have n: "length (reply (POST sample_world sample_request)) = 214"
    by (simp add: sample_outcome sample_length)
  have h: "length (reply (POST sample_world sample_request)) < 2 ^ 53"
    unfolding n by simp
  have a: "map (number_field (str ''completionTokens''))
       (frames_tagged 0x65 (sent_chunks (body (POST sample_world sample_request)))) =
       [Some (length (reply (POST sample_world sample_request)))]"
    using t h by blast
  have b: "map (number_field (str ''completionTokens''))
       (frames_tagged 0x64 (sent_chunks (body (POST sample_world sample_request)))) =
       [Some (length (reply (POST sample_world sample_request)))]"
    using t h by blast
  have c: "usage_field (finish_object (reply (POST sample_world sample_request)))
       (str ''completionTokens'') =
       Some (JNum (of_nat (length (reply (POST sample_world sample_request)))))"
    using t by blast
  from n a b c show ?thesis by simp
qed

text \<open>
  C10. In every response, of either route, whatever the request and whatever the
  outcome, the one \<^verbatim>\<open>e:\<close> frame and the one \<^verbatim>\<open>d:\<close> frame the body carries have the
  constant 10 as the \<^verbatim>\<open>promptTokens\<close> field of \<^verbatim>\<open>usage\<close>: it is the number read off the
  wire after the field's name, and it is the field of the two objects of the source.
\<close>

theorem prompt_tokens_is_ten:
  "map (number_field (str ''promptTokens''))
     (frames_tagged 0x65 (sent_chunks (body (POST w req)))) = [Some 10]
   \<and> map (number_field (str ''promptTokens''))
     (frames_tagged 0x64 (sent_chunks (body (POST w req)))) = [Some 10]
   \<and> map (number_field (str ''promptTokens''))
     (frames_tagged 0x65 (sent_chunks (body (POST_cookie w sw req)))) = [Some 10]
   \<and> map (number_field (str ''promptTokens''))
     (frames_tagged 0x64 (sent_chunks (body (POST_cookie w sw req)))) = [Some 10]
   \<and> frames_tagged 0x65 (sent_chunks (body (POST w req))) =
     [JSON_stringify (finish_object (reply (POST w req)))]
   \<and> frames_tagged 0x64 (sent_chunks (body (POST w req))) =
     [JSON_stringify (done_object (reply (POST w req)))]
   \<and> usage_field (finish_object message) (str ''promptTokens'') = Some (JNum 10)
   \<and> usage_field (done_object message) (str ''promptTokens'') = Some (JNum 10)"
proof -
  have a: "map (number_field (str ''promptTokens''))
     (frames_tagged 0x65 (sent_chunks (body (POST w req)))) = [Some 10]"
    "map (number_field (str ''promptTokens''))
     (frames_tagged 0x64 (sent_chunks (body (POST w req)))) = [Some 10]"
    "map (number_field (str ''promptTokens''))
     (frames_tagged 0x65 (sent_chunks (body (POST_cookie w sw req)))) = [Some 10]"
    "map (number_field (str ''promptTokens''))
     (frames_tagged 0x64 (sent_chunks (body (POST_cookie w sw req)))) = [Some 10]"
    unfolding closing_payloads by (simp_all add: prompt_field del: JSON_stringify.simps)
  have e: "usage_field (finish_object message) (str ''promptTokens'') = Some (JNum 10)"
    by (simp add: usage_field_def finish_object_def usage_def str_def)
  have d: "usage_field (done_object message) (str ''promptTokens'') = Some (JNum 10)"
    by (simp add: usage_field_def done_object_def usage_def str_def)
  from a closing_payloads (1) [of w req] closing_payloads (2) [of w req] e d
  show ?thesis by blast
qed

theorem prompt_tokens_is_ten_witness:
  "reply (POST sample_world empty_request) = str ''Please provide an image for object detection.''
   \<and> map (number_field (str ''promptTokens''))
       (frames_tagged 0x65 (sent_chunks (body (POST sample_world empty_request)))) = [Some 10]
   \<and> map (number_field (str ''promptTokens''))
       (frames_tagged 0x64 (sent_chunks (body (POST storage_down_world sample_request)))) = [Some 10]
   \<and> map (number_field (str ''promptTokens''))
       (frames_tagged 0x65 (sent_chunks (body (POST_cookie sample_world first_visit sample_request)))) =
       [Some 10]"
proof -
  have a: "reply (POST sample_world empty_request) = str ''Please provide an image for object detection.''"
    by (simp add: POST_def respond_def empty_request_def)
  from a prompt_tokens_is_ten [of sample_world empty_request first_visit "[]"]
    prompt_tokens_is_ten [of storage_down_world sample_request first_visit "[]"]
    prompt_tokens_is_ten [of sample_world sample_request first_visit "[]"]
  show ?thesis by blast
qed

subsection \<open>The success message\<close>

lemma success_template_parts:
  "str_includes (success_template (str ''3'') (str ''cat, dog, car'') (str ''abc123''))
     (str ''Detection Count:** 3'')"
  "str_includes (success_template (str ''3'') (str ''cat, dog, car'') (str ''abc123''))
     (str ''cat, dog, car'')"
  "str_includes (success_template (str ''3'') (str ''cat, dog, car'') (str ''abc123''))
     (str ''abc123'')"
  by (simp_all add: success_template_def str_def LF_def)

text \<open>
  C7. For a detection result with count 3, labels cat, dog, car and prediction id
  abc123 the success message is the template filled with \<^verbatim>\<open>3\<close>, \<^verbatim>\<open>cat, dog, car\<close> and
  \<^verbatim>\<open>abc123\<close>, and it contains the substrings \<^verbatim>\<open>Detection Count:** 3\<close>,
  \<^verbatim>\<open>cat, dog, car\<close> and \<^verbatim>\<open>abc123\<close>.
\<close>

theorem success_message_contents:
  assumes "get_own result (str ''detection_count'') = Some (JNum 3)"
    and "get_own result (str ''labels'') = Some (JArr [JStr (str ''cat''), JStr (str ''dog''), JStr (str ''car'')])"
    and "get_own result (str ''prediction_uid'') = Some (JStr (str ''abc123''))"
  shows "success_message w result =
           Inr (success_template (str ''3'') (str ''cat, dog, car'') (str ''abc123''))
         \<and> str_includes (success_template (str ''3'') (str ''cat, dog, car'') (str ''abc123''))
               (str ''Detection Count:** 3'')
         \<and> str_includes (success_template (str ''3'') (str ''cat, dog, car'') (str ''abc123''))
               (str ''cat, dog, car'')
         \<and> str_includes (success_template (str ''3'') (str ''cat, dog, car'') (str ''abc123''))
               (str ''abc123'')"
proof -
  have n: "\<not> is_null result"
    using assms(1) by (cases result) simp_all
  have c: "slot_text (get_own result (str ''detection_count'')) = Some (str ''3'')"
    unfolding assms(1) by (simp add: str_def int_to_string_def digits_numeral digits_small)
  have l: "labels_joined w (get_own result (str ''labels'')) = Inr (str ''cat, dog, car'')"
    unfolding assms(2) by (simp add: str_def array_join_def)
  have u: "slot_text (get_own result (str ''prediction_uid'')) = Some (str ''abc123'')"
    unfolding assms(3) by simp
  have "success_message w result =
      Inr (success_template (str ''3'') (str ''cat, dog, car'') (str ''abc123''))"
    by (simp add: success_message_def n c l u)
  then show ?thesis
    using success_template_parts by blast
qed

theorem success_message_contents_witness:
  "success_message sample_world sample_detection =
     Inr (reply (POST sample_world sample_request))
   \<and> str_includes (reply (POST sample_world sample_request)) (str ''Detection Count:** 3'')
   \<and> str_includes (reply (POST sample_world sample_request)) (str ''cat, dog, car'')
   \<and> str_includes (reply (POST sample_world sample_request)) (str ''abc123'')"
proof -
  have a: "get_own sample_detection (str ''detection_count'') = Some (JNum 3)"
    by (simp add: sample_detection_def str_def)
  have b: "get_own sample_detection (str ''labels'') =
      Some (JArr [JStr (str ''cat''), JStr (str ''dog''), JStr (str ''car'')])"
    by (simp add: sample_detection_def str_def)
  have c: "get_own sample_detection (str ''prediction_uid'') = Some (JStr (str ''abc123''))"
    by (simp add: sample_detection_def str_def)
  from success_message_contents [OF a b c, of sample_world] show ?thesis
    unfolding sample_outcome by blast
qed

subsection \<open>Only the first image\<close>

lemma first_image_Cons:
  "data req = Some d \<Longrightarrow> images d = Some (imageUrl # others) \<Longrightarrow>
   first_image (data req) = Some imageUrl"
  by simp

lemma getChatId_images:
  "getChatId (Some (d\<lparr>images := x\<rparr>)) ms = getChatId (Some d) ms"
  by (simp add: getChatId_def)

text \<open>
  C9. When \<^verbatim>\<open>data.images\<close> has more than one entry, only the first is resolved,
  uploaded and sent for detection: the outbound calls and the message are those of
  the try block on the first entry, and the whole outcome (calls, message, stream,
  headers) is the outcome of the same request with the later entries removed, in
  both routes.
\<close>

theorem only_first_image:
  assumes "data req = Some d" and "images d = Some (imageUrl # others)"
  shows "POST w req = POST w (req\<lparr>data := Some (d\<lparr>images := Some [imageUrl]\<rparr>)\<rparr>)
         \<and> POST_cookie w sw req = POST_cookie w sw (req\<lparr>data := Some (d\<lparr>images := Some [imageUrl]\<rparr>)\<rparr>)
         \<and> calls (POST w req) = fst (detect w (getChatId (data req) (messages req)) imageUrl)
         \<and> reply (POST w req) =
             (case snd (detect w (getChatId (data req) (messages req)) imageUrl) of
                Inl error \<Rightarrow> error_report w error
              | Inr text \<Rightarrow> text)"
proof -
  have f: "first_image (data req) = Some imageUrl"
    using assms by simp
  have f': "first_image (Some (d\<lparr>images := Some [imageUrl]\<rparr>)) = Some imageUrl"
    by simp
  have r: "respond w c (data req) = respond w c (Some (d\<lparr>images := Some [imageUrl]\<rparr>))" for c
    unfolding respond_def f f' ..
  have g: "getChatId (data req) (messages req) =
      getChatId (Some (d\<lparr>images := Some [imageUrl]\<rparr>)) (messages req)"
    unfolding assms(1) getChatId_images ..
  have a: "POST w req = POST w (req\<lparr>data := Some (d\<lparr>images := Some [imageUrl]\<rparr>)\<rparr>)"
    using r g by (simp add: POST_def)
  have b: "POST_cookie w sw req =
      POST_cookie w sw (req\<lparr>data := Some (d\<lparr>images := Some [imageUrl]\<rparr>)\<rparr>)"
    using r by (simp add: POST_cookie_def)
  have c: "calls (POST w req) = fst (detect w (getChatId (data req) (messages req)) imageUrl)"
    by (simp add: POST_def respond_def f split: prod.splits sum.splits)
  have e: "reply (POST w req) =
             (case snd (detect w (getChatId (data req) (messages req)) imageUrl) of
                Inl error \<Rightarrow> error_report w error
              | Inr text \<Rightarrow> text)"
    by (simp add: POST_def respond_def f split: prod.splits sum.splits)
  from a b c e show ?thesis by blast
qed

theorem only_first_image_witness:
  "images (the (data sample_request)) = Some [str ''data:image/png;base64,QUJD'', str ''ftp://ignored'']
   \<and> POST sample_world sample_request =
       POST sample_world
         (sample_request\<lparr>data := Some ((the (data sample_request))\<lparr>images := Some [str ''data:image/png;base64,QUJD'']\<rparr>)\<rparr>)
   \<and> calls (POST sample_world sample_request) =
       [S3Send sample_put, Fetch sample_url (Some (str ''POST''))]"
proof -
  have d: "data sample_request = Some (the (data sample_request))"
    by (simp add: sample_request_def)
  have i: "images (the (data sample_request)) =
      Some (str ''data:image/png;base64,QUJD'' # [str ''ftp://ignored''])"
    by (simp add: sample_request_def)
  from only_first_image [OF d i, of sample_world undefined] i sample_outcome(1)
  show ?thesis by simp
qed

subsection \<open>Image references that cannot be resolved\<close>

lemma strip_prefix_Some: "strip_prefix p s = Some d \<Longrightarrow> s = p @ d"
  by (induction p s rule: strip_prefix.induct) (auto split: if_splits)

lemma base64_tail_includes: "base64_tail rest = Some d \<Longrightarrow> str_includes rest (str '';base64,'')"
proof -
  assume "base64_tail rest = Some d"
  then obtain d' where "strip_prefix (str '';base64,'') rest = Some d'"
    by (auto simp: base64_tail_def split: option.splits)
  then have "rest = [] @ str '';base64,'' @ d'"
    using strip_prefix_Some by fastforce
  then show ?thesis
    using str_includes_append [of "[]" "str '';base64,''" d'] by simp
qed

lemma lazy_group_includes:
  "lazy_group t rest = Some r \<Longrightarrow> str_includes rest (str '';base64,'')"
proof (induction t rest rule: lazy_group.induct)
  case (1 t)
  then show ?case by simp
next
  case (2 t c cs)
  show ?case
  proof (cases "base64_tail (c # cs)")
    case (Some d)
    then show ?thesis by (rule base64_tail_includes)
  next
    case None
    with "2.prems" have "dot c" and "lazy_group (t @ [c]) cs = Some r"
      by (auto split: if_splits)
    with "2.IH" None have "str_includes cs (str '';base64,'')" by blast
    then show ?thesis by simp
  qed
qed

lemma exec_shape: "data_url_exec ref = Some r \<Longrightarrow> data_url_shape ref"
  by (auto simp: data_url_exec_def data_url_shape_def lazy_group_includes
      split: option.splits list.splits if_splits)

lemma parse_malformed: "\<not> data_url_shape ref \<Longrightarrow> parseDataUrl ref = Inl MalformedInlineImage"
  using exec_shape [of ref] by (cases "data_url_exec ref") (auto simp: parseDataUrl_def)

lemma respond_failure:
  "first_image d = Some ref \<Longrightarrow> detect w chat ref = (log, Inl error) \<Longrightarrow>
   respond w chat d = (log, error_report w error)"
  by (simp add: respond_def)

lemma detect_unresolved:
  "resolve_image w ref = (log, Inl error) \<Longrightarrow> detect w chat ref = (log, Inl error)"
  by (simp add: detect_def)

lemma POST_respond:
  "respond w (getChatId (data req) (messages req)) (data req) = (log, text) \<Longrightarrow>
   calls (POST w req) = log \<and> reply (POST w req) = text"
  by (simp add: POST_def)

lemma POST_cookie_respond:
  "respond w (fst (resolveChatFolderId sw)) (data req) = (log, text) \<Longrightarrow>
   calls (POST_cookie w sw req) = log \<and> reply (POST_cookie w sw req) = text"
  by (cases "resolveChatFolderId sw") (simp add: POST_cookie_def)

lemma body_closed:
  "body (POST w req) =
     Inr \<lparr>chunks = map TextEncoder_encode (stream_frames (reply (POST w req))), close_requested = True\<rparr>"
  "body (POST_cookie w sw req) =
     Inr \<lparr>chunks = map TextEncoder_encode (stream_frames (reply (POST_cookie w sw req))),
          close_requested = True\<rparr>"
  by (simp_all add: body_POST body_POST_cookie ReadableStream_chunks)

text \<open>
  C3. For a request whose first image reference starts with \<^verbatim>\<open>data:\<close> but is not of
  the shape \<^verbatim>\<open>data:<type>;base64,<data>\<close>, the try block throws the malformed-inline-image
  error; for a reference that starts with none of \<^verbatim>\<open>data:\<close>, \<^verbatim>\<open>http://\<close>, \<^verbatim>\<open>https://\<close>
  it throws the unsupported-source error. In both cases, and in both routes, no
  outbound call is made, the response message is the error report of that error, and
  the response stream is complete and closed.
\<close>

theorem bad_reference_reported:
  assumes "first_image (data req) = Some ref"
  shows "(startsWith ref (str ''data:'') \<and> \<not> data_url_shape ref \<longrightarrow>
            snd (resolve_image w ref) = Inl MalformedInlineImage
            \<and> reply (POST w req) = error_report w MalformedInlineImage
            \<and> reply (POST_cookie w sw req) = error_report w MalformedInlineImage
            \<and> calls (POST w req) = [] \<and> calls (POST_cookie w sw req) = [])
         \<and> (\<not> startsWith ref (str ''data:'') \<and> \<not> startsWith ref (str ''http://'')
              \<and> \<not> startsWith ref (str ''https://'') \<longrightarrow>
            snd (resolve_image w ref) = Inl UnsupportedImageSource
            \<and> reply (POST w req) = error_report w UnsupportedImageSource
            \<and> reply (POST_cookie w sw req) = error_report w UnsupportedImageSource
            \<and> calls (POST w req) = [] \<and> calls (POST_cookie w sw req) = [])
         \<and> body (POST w req) =
             Inr \<lparr>chunks = map TextEncoder_encode (stream_frames (reply (POST w req))),
                  close_requested = True\<rparr>
         \<and> body (POST_cookie w sw req) =
             Inr \<lparr>chunks = map TextEncoder_encode (stream_frames (reply (POST_cookie w sw req))),
                  close_requested = True\<rparr>
         \<and> error_text MalformedInlineImage = str ''Unsupported data URL format.''
         \<and> error_text UnsupportedImageSource =
             str ''Unsupported image source. Use a data URL or http(s) URL.''"
proof -
  have report: "calls (POST w req) = [] \<and> reply (POST w req) = error_report w e
      \<and> calls (POST_cookie w sw req) = [] \<and> reply (POST_cookie w sw req) = error_report w e"
    if "resolve_image w ref = ([], Inl e)" for e
  proof -
    have "respond w chat (data req) = ([], error_report w e)" for chat
      using assms detect_unresolved [OF that] by (rule respond_failure)
    then show ?thesis
      using POST_respond [of w req "[]" "error_report w e"]
        POST_cookie_respond [of w sw req "[]" "error_report w e"]
      by simp
  qed
  have a: "resolve_image w ref = ([], Inl MalformedInlineImage)"
    if "startsWith ref (str ''data:'')" "\<not> data_url_shape ref"
    using that by (simp add: resolve_image_def parse_malformed)
  have b: "resolve_image w ref = ([], Inl UnsupportedImageSource)"
    if "\<not> startsWith ref (str ''data:'')" "\<not> startsWith ref (str ''http://'')"
      "\<not> startsWith ref (str ''https://'')"
    using that by (simp add: resolve_image_def)
  have m: "error_text MalformedInlineImage = str ''Unsupported data URL format.''"
    by (simp add: MalformedInlineImage_def)
  have u: "error_text UnsupportedImageSource =
      str ''Unsupported image source. Use a data URL or http(s) URL.''"
    by (simp add: UnsupportedImageSource_def)
  have A: "startsWith ref (str ''data:'') \<and> \<not> data_url_shape ref \<longrightarrow>
            snd (resolve_image w ref) = Inl MalformedInlineImage
            \<and> reply (POST w req) = error_report w MalformedInlineImage
            \<and> reply (POST_cookie w sw req) = error_report w MalformedInlineImage
            \<and> calls (POST w req) = [] \<and> calls (POST_cookie w sw req) = []"
    using a report [of MalformedInlineImage] by auto
  have B: "\<not> startsWith ref (str ''data:'') \<and> \<not> startsWith ref (str ''http://'')
              \<and> \<not> startsWith ref (str ''https://'') \<longrightarrow>
            snd (resolve_image w ref) = Inl UnsupportedImageSource
            \<and> reply (POST w req) = error_report w UnsupportedImageSource
            \<and> reply (POST_cookie w sw req) = error_report w UnsupportedImageSource
            \<and> calls (POST w req) = [] \<and> calls (POST_cookie w sw req) = []"
    using b report [of UnsupportedImageSource] by auto
  from A B body_closed (1) [of w req] body_closed (2) [of w sw req] m u
  show ?thesis by blast
qed

theorem bad_reference_reported_witness:
  "reply (POST sample_world (with_image (str ''data:image/png,QUJD''))) =
     error_report sample_world MalformedInlineImage
   \<and> reply (POST sample_world (with_image (str ''ftp://host/cat.png''))) =
     error_report sample_world UnsupportedImageSource
   \<and> calls (POST sample_world (with_image (str ''ftp://host/cat.png''))) = []
   \<and> error_report sample_world UnsupportedImageSource =
       [0x274C] @ str '' **Object Detection Error**'' @ [LF, LF]
       @ str ''Sorry, I encountered an error while processing your image: ''
       @ str ''Unsupported image source. Use a data URL or http(s) URL.'' @ [LF, LF]
       @ str ''Please make sure the object detection service is reachable at http://yolo:8080.''"
proof -
  have i1: "first_image (data (with_image (str ''data:image/png,QUJD''))) = Some (str ''data:image/png,QUJD'')"
    by (simp add: with_image_def)
  have h1: "startsWith (str ''data:image/png,QUJD'') (str ''data:'')
      \<and> \<not> data_url_shape (str ''data:image/png,QUJD'')"
    by (simp add: startsWith_def data_url_shape_def str_def)
  have i2: "first_image (data (with_image (str ''ftp://host/cat.png''))) = Some (str ''ftp://host/cat.png'')"
    by (simp add: with_image_def)
  have h2: "\<not> startsWith (str ''ftp://host/cat.png'') (str ''data:'')
      \<and> \<not> startsWith (str ''ftp://host/cat.png'') (str ''http://'')
      \<and> \<not> startsWith (str ''ftp://host/cat.png'') (str ''https://'')"
    by (simp add: startsWith_def str_def)
  have r: "error_report sample_world UnsupportedImageSource =
       [0x274C] @ str '' **Object Detection Error**'' @ [LF, LF]
       @ str ''Sorry, I encountered an error while processing your image: ''
       @ str ''Unsupported image source. Use a data URL or http(s) URL.'' @ [LF, LF]
       @ str ''Please make sure the object detection service is reachable at http://yolo:8080.''"
    by (simp add: error_report_def UnsupportedImageSource_def sample_world_def str_def)
  from bad_reference_reported [OF i1, of sample_world undefined] h1
    bad_reference_reported [OF i2, of sample_world undefined] h2 r
  show ?thesis by blast
qed

subsection \<open>Failures become the error report\<close>

lemma detect_failure:
  assumes "snd (resolve_image w imageUrl) = Inl error
         \<or> (\<exists>buffer ct. snd (resolve_image w imageUrl) = Inr (buffer, ct)
              \<and> (s3_send w (put_command w (object_key w chat ct) buffer ct) = Inl error
                 \<or> (s3_send w (put_command w (object_key w chat ct) buffer ct) = Inr ()
                    \<and> snd (predict w (object_key w chat ct) chat) = Inl error)))"
  shows "snd (detect w chat imageUrl) = Inl error"
proof (cases "resolve_image w imageUrl")
  case (Pair log1 r)
  show ?thesis
  proof (cases r)
    case (Inl e)
    with Pair assms show ?thesis by (simp add: detect_def)
  next
    case (Inr bc)
    obtain buffer ct where bc: "bc = (buffer, ct)" by (cases bc)
    from Pair Inr bc assms
    have "s3_send w (put_command w (object_key w chat ct) buffer ct) = Inl error
          \<or> (s3_send w (put_command w (object_key w chat ct) buffer ct) = Inr ()
              \<and> snd (predict w (object_key w chat ct) chat) = Inl error)"
      by simp
    then show ?thesis
    proof
      assume "s3_send w (put_command w (object_key w chat ct) buffer ct) = Inl error"
      with Pair Inr bc show ?thesis by (simp add: detect_def Let_def)
    next
      assume "s3_send w (put_command w (object_key w chat ct) buffer ct) = Inr ()
              \<and> snd (predict w (object_key w chat ct) chat) = Inl error"
      with Pair Inr bc show ?thesis
        by (cases "predict w (object_key w chat ct) chat") (simp add: detect_def Let_def)
    qed
  qed
qed

lemma respond_reports:
  "first_image d = Some imageUrl \<Longrightarrow> snd (detect w chat imageUrl) = Inl error \<Longrightarrow>
   snd (respond w chat d) = error_report w error"
  by (cases "detect w chat imageUrl") (simp add: respond_def)

lemma reply_POST: "reply (POST w req) = snd (respond w (getChatId (data req) (messages req)) (data req))"
  by (cases "respond w (getChatId (data req) (messages req)) (data req)") (simp add: POST_def)

lemma reply_POST_cookie:
  "reply (POST_cookie w sw req) = snd (respond w (fst (resolveChatFolderId sw)) (data req))"
  by (cases "resolveChatFolderId sw"; cases "respond w (fst (resolveChatFolderId sw)) (data req)")
    (simp add: POST_cookie_def)

lemma error_report_includes:
  "str_includes (error_report w error) (error_text error)"
  "str_includes (error_report w error) (str ''http://'' @ template_text (YOLO_SERVICE w))"
proof -
  have a: "error_report w error =
      ([0x274C] @ str '' **Object Detection Error**'' @ [LF, LF]
       @ str ''Sorry, I encountered an error while processing your image: '')
      @ error_text error
      @ ([LF, LF]
         @ str ''Please make sure the object detection service is reachable at http://''
         @ template_text (YOLO_SERVICE w) @ str ''.'')"
    by (simp add: error_report_def)
  show "str_includes (error_report w error) (error_text error)"
    unfolding a by (rule str_includes_append)
  have b: "error_report w error =
      ([0x274C] @ str '' **Object Detection Error**'' @ [LF, LF]
       @ str ''Sorry, I encountered an error while processing your image: ''
       @ error_text error @ [LF, LF]
       @ str ''Please make sure the object detection service is reachable at '')
      @ (str ''http://'' @ template_text (YOLO_SERVICE w))
      @ str ''.''"
    by (simp add: error_report_def str_def)
  show "str_includes (error_report w error) (str ''http://'' @ template_text (YOLO_SERVICE w))"
    unfolding b by (rule str_includes_append)
qed

text \<open>
  C5. Whatever is thrown while the image is resolved, while it is uploaded or by the
  detection call is caught once and becomes the response message: the fixed error
  report, which embeds the message of the error (the text \<^verbatim>\<open>Unknown error\<close> when the
  thrown value is not an \<^verbatim>\<open>Error\<close>) and ends with the hint at the address configured
  in \<^verbatim>\<open>YOLO_SERVICE\<close>. The report is a total function of the thrown value, the
  response has that one message, in both routes, and its stream is complete.
\<close>

theorem failure_is_reported:
  assumes "first_image (data req) = Some imageUrl"
    and "snd (resolve_image w imageUrl) = Inl error
         \<or> (\<exists>buffer ct. snd (resolve_image w imageUrl) = Inr (buffer, ct)
              \<and> (s3_send w (put_command w (object_key w chat ct) buffer ct) = Inl error
                 \<or> (s3_send w (put_command w (object_key w chat ct) buffer ct) = Inr ()
                    \<and> snd (predict w (object_key w chat ct) chat) = Inl error)))"
  shows "snd (respond w chat (data req)) = error_report w error
         \<and> reply (POST w req) = snd (respond w (getChatId (data req) (messages req)) (data req))
         \<and> reply (POST_cookie w sw req) = snd (respond w (fst (resolveChatFolderId sw)) (data req))
         \<and> error_report w error =
             [0x274C] @ str '' **Object Detection Error**'' @ [LF, LF]
             @ str ''Sorry, I encountered an error while processing your image: ''
             @ error_text error @ [LF, LF]
             @ str ''Please make sure the object detection service is reachable at http://''
             @ template_text (YOLO_SERVICE w) @ str ''.''
         \<and> error_text (ErrorObj m) = m
         \<and> error_text NotAnError = str ''Unknown error''
         \<and> template_text (Some address) = address
         \<and> str_includes (error_report w error) (error_text error)
         \<and> str_includes (error_report w error) (str ''http://'' @ template_text (YOLO_SERVICE w))
         \<and> body (POST w req) =
             Inr \<lparr>chunks = map TextEncoder_encode (stream_frames (reply (POST w req))),
                  close_requested = True\<rparr>
         \<and> body (POST_cookie w sw req) =
             Inr \<lparr>chunks = map TextEncoder_encode (stream_frames (reply (POST_cookie w sw req))),
                  close_requested = True\<rparr>"
proof -
  have d: "snd (detect w chat imageUrl) = Inl error"
    using assms(2) by (rule detect_failure)
  have r: "snd (respond w chat (data req)) = error_report w error"
    using assms(1) d by (rule respond_reports)
  have e: "error_report w error =
             [0x274C] @ str '' **Object Detection Error**'' @ [LF, LF]
             @ str ''Sorry, I encountered an error while processing your image: ''
             @ error_text error @ [LF, LF]
             @ str ''Please make sure the object detection service is reachable at http://''
             @ template_text (YOLO_SERVICE w) @ str ''.''"
    by (simp add: error_report_def)
  have t: "error_text (ErrorObj m) = m" "error_text NotAnError = str ''Unknown error''"
    "template_text (Some address) = address"
    by simp_all
  from r reply_POST [of w req] reply_POST_cookie [of w sw req] e t
    error_report_includes [of w error] body_closed (1) [of w req] body_closed (2) [of w sw req]
  show ?thesis by blast
qed

theorem failure_is_reported_witness:
  "reply (POST storage_down_world sample_request) =
     [0x274C] @ str '' **Object Detection Error**'' @ [LF, LF]
     @ str ''Sorry, I encountered an error while processing your image: Access Denied'' @ [LF, LF]
     @ str ''Please make sure the object detection service is reachable at http://yolo:8080.''
   \<and> str_includes (reply (POST storage_down_world sample_request)) (str ''http://yolo:8080'')"
proof -
  have i: "first_image (data sample_request) = Some (str ''data:image/png;base64,QUJD'')"
    by (rule sample_image)
  have s: "s3_send storage_down_world = (\<lambda>put. Inl (ErrorObj (str ''Access Denied'')))"
    by (simp add: storage_down_world_def)
  have f: "snd (resolve_image storage_down_world (str ''data:image/png;base64,QUJD'')) =
        Inl (ErrorObj (str ''Access Denied''))
      \<or> (\<exists>buffer ct. snd (resolve_image storage_down_world (str ''data:image/png;base64,QUJD'')) =
             Inr (buffer, ct)
           \<and> (s3_send storage_down_world
                 (put_command storage_down_world (object_key storage_down_world (str ''chat42'') ct) buffer ct) =
                Inl (ErrorObj (str ''Access Denied''))
              \<or> (s3_send storage_down_world
                 (put_command storage_down_world (object_key storage_down_world (str ''chat42'') ct) buffer ct) =
                  Inr ()
                 \<and> snd (predict storage_down_world (object_key storage_down_world (str ''chat42'') ct)
                        (str ''chat42'')) = Inl (ErrorObj (str ''Access Denied'')))))"
    by (simp add: sample_resolve s)
  note t = failure_is_reported [OF i f, of undefined undefined undefined]
  have y: "YOLO_SERVICE storage_down_world = Some (str ''yolo:8080'')"
    by (simp add: storage_down_world_def sample_world_def)
  have r: "reply (POST storage_down_world sample_request) =
      error_report storage_down_world (ErrorObj (str ''Access Denied''))"
    using t sample_chat by simp
  have e: "error_report storage_down_world (ErrorObj (str ''Access Denied'')) =
     [0x274C] @ str '' **Object Detection Error**'' @ [LF, LF]
     @ str ''Sorry, I encountered an error while processing your image: Access Denied'' @ [LF, LF]
     @ str ''Please make sure the object detection service is reachable at http://yolo:8080.''"
    by (simp add: error_report_def y str_def)
  have h: "str_includes (error_report storage_down_world (ErrorObj (str ''Access Denied'')))
      (str ''http://'' @ template_text (YOLO_SERVICE storage_down_world))"
    using t by blast
  have h': "str ''http://'' @ template_text (YOLO_SERVICE storage_down_world) = str ''http://yolo:8080''"
    by (simp add: y str_def)
  from r e h [unfolded h'] show ?thesis by simp
qed

subsection \<open>The folder id of a conversation\<close>

lemma str_split_head:
  "sep \<notin> set a \<Longrightarrow> hd (str_split (a @ sep # b) sep) = a"
proof (induction a)
  case Nil
  then show ?case by simp
next
  case (Cons c a)
  then show ?case
    using str_split_not_Nil [of "a @ sep # b" sep]
    by (cases "str_split (a @ sep # b) sep") auto
qed

lemma digits_maxAge: "digits maxAge = str ''7776000''"
  by (simp add: maxAge_def digits_numeral str_def)

lemma minted:
  assumes "resolveChatFolderId sw = (token, Some header)"
  shows "token = hd (str_split (toISOString_now sw) 0x54) @ str ''-'' @ hd (str_split (randomUUID sw) 0x2D)"
    and "header = str ''chatFolderId='' @ token @ str ''; Path=/; Max-Age=7776000; SameSite=Lax''"
    and "\<not> truthy (cookie_jar sw (str ''chatFolderId''))"
  using assms
  by (auto simp: resolveChatFolderId_def Let_def digits_maxAge str_def split: if_splits)

text \<open>
  C6. Once a folder id has been minted (the call returned a \<^verbatim>\<open>Set-Cookie\<close> header) and
  the cookie is present on a later call, that call returns the same folder id and no
  header, whatever the clock and the random source are by then; the response of the
  cookie route then sets no cookie. A minted id is the part of the ISO timestamp
  before the \<^verbatim>\<open>T\<close> (the calendar date), a hyphen, and the first block of a random
  UUID, and its cookie is kept for 7776000 seconds, which is 90 days.
\<close>

theorem session_token_reused:
  assumes "resolveChatFolderId sw = (token, Some header)"
    and "cookie_jar sw' (str ''chatFolderId'') = Some token"
  shows "resolveChatFolderId sw' = (token, None)
         \<and> headers (POST_cookie w sw' req) = stream_headers
         \<and> headers (POST_cookie w sw req) = stream_headers @ [(str ''Set-Cookie'', header)]
         \<and> token = hd (str_split (toISOString_now sw) 0x54) @ str ''-''
                    @ hd (str_split (randomUUID sw) 0x2D)
         \<and> (toISOString_now sw = date @ 0x54 # time \<and> 0x54 \<notin> set date
              \<and> randomUUID sw = block @ 0x2D # blocks \<and> 0x2D \<notin> set block
              \<longrightarrow> token = date @ str ''-'' @ block)
         \<and> header = str ''chatFolderId='' @ token @ str ''; Path=/; Max-Age=7776000; SameSite=Lax''
         \<and> maxAge = 90 * (24 * 60 * 60)"
proof -
  note m = minted [OF assms(1)]
  have ne: "token \<noteq> []"
    unfolding m(1) by (simp add: str_def)
  have a: "resolveChatFolderId sw' = (token, None)"
    using assms(2) ne by (simp add: resolveChatFolderId_def)
  have b: "headers (POST_cookie w sw' req) = stream_headers"
    by (cases "respond w token (data req)") (simp add: POST_cookie_def a)
  have c: "headers (POST_cookie w sw req) = stream_headers @ [(str ''Set-Cookie'', header)]"
    by (cases "respond w token (data req)") (simp add: POST_cookie_def assms(1))
  have d: "toISOString_now sw = date @ 0x54 # time \<and> 0x54 \<notin> set date
              \<and> randomUUID sw = block @ 0x2D # blocks \<and> 0x2D \<notin> set block
              \<longrightarrow> token = date @ str ''-'' @ block"
    unfolding m(1) by (auto simp: str_split_head)
  have e: "maxAge = 90 * (24 * 60 * 60)"
    by (simp add: maxAge_def)
  from a b c m(1) d m(2) e show ?thesis by blast
qed

theorem session_token_reused_witness:
  "resolveChatFolderId first_visit =
     (str ''2025-09-04-1b9d6bcd'',
      Some (str ''chatFolderId=2025-09-04-1b9d6bcd; Path=/; Max-Age=7776000; SameSite=Lax''))
   \<and> cookie_jar later_visit (str ''chatFolderId'') = Some (str ''2025-09-04-1b9d6bcd'')
   \<and> resolveChatFolderId later_visit = (str ''2025-09-04-1b9d6bcd'', None)
   \<and> headers (POST_cookie sample_world later_visit sample_request) = stream_headers"
proof -
  have a: "resolveChatFolderId first_visit =
     (str ''2025-09-04-1b9d6bcd'',
      Some (str ''chatFolderId=2025-09-04-1b9d6bcd; Path=/; Max-Age=7776000; SameSite=Lax''))"
    by (simp add: resolveChatFolderId_def first_visit_def digits_maxAge Let_def str_def)
  have b: "cookie_jar later_visit (str ''chatFolderId'') = Some (str ''2025-09-04-1b9d6bcd'')"
    by (simp add: later_visit_def)
  from session_token_reused [OF a b, of sample_world sample_request undefined undefined undefined undefined]
    a b
  show ?thesis by blast
qed

subsection \<open>Base64 data of an inline image\<close>

lemma unat_base64_char:
  "v < 64 \<Longrightarrow>
   unat (base64_char v) =
     (if v < 26 then 0x41 + v else if v < 52 then 0x61 + (v - 26)
      else if v < 62 then 0x30 + (v - 52) else if v = 62 then 0x2B else 0x2F)"
  unfolding base64_char_def
  by (simp add: unat_of_nat16 del: of_nat_add of_nat_numeral of_nat_diff)

lemma unbase64_unat:
  "unbase64 c =
     (if 0x41 \<le> unat c \<and> unat c \<le> 0x5A then Some (unat c - 0x41)
      else if 0x61 \<le> unat c \<and> unat c \<le> 0x7A then Some (unat c - 0x61 + 26)
      else if 0x30 \<le> unat c \<and> unat c \<le> 0x39 then Some (unat c - 0x30 + 52)
      else if unat c = 0x2B then Some 62
      else if unat c = 0x2D then Some 62
      else if unat c = 0x2F then Some 63
      else if unat c = 0x5F then Some 63
      else None)"
  by (simp add: unbase64_def word_le_nat_alt word_unat_eq_iff)

lemma unat_low_byte:
  "v < 64 \<Longrightarrow> unat (ucast (base64_char v) :: byte) = unat (base64_char v)"
proof -
  assume v: "v < 64"
  then have "unat (base64_char v) < 256"
    by (simp add: unat_base64_char) arith
  then show ?thesis
    by (simp add: unsigned_ucast_eq take_bit_nat_eq_self)
qed

lemma unbase64_char: "v < 64 \<Longrightarrow> unbase64 (ucast (base64_char v)) = Some v"
  by (simp add: unbase64_unat unat_low_byte unat_base64_char) arith

lemma base64_char_not_pad: "v < 64 \<Longrightarrow> (ucast (base64_char v) :: byte) \<noteq> 0x3D"
proof
  assume v: "v < 64" and "(ucast (base64_char v) :: byte) = 0x3D"
  then have "unat (ucast (base64_char v) :: byte) = 0x3D" by simp
  with v show False by (simp add: unat_low_byte unat_base64_char split: if_splits)
qed

lemma sextets_char:
  "v < 64 \<Longrightarrow> base64_sextets (base64_char v # cs) = v # base64_sextets cs"
  by (simp add: unbase64_char base64_char_not_pad)

lemma sextets_pad: "base64_sextets (0x3D # cs) = []"
  by simp

lemma unat8_less: "unat (x :: byte) < 256"
  using unsigned_less [of x, where 'a = nat] by simp

lemma byte_of_unat: "word_of_nat (unat (x :: byte)) = x"
  by simp


lemma sextet_bounds:
  "unat (x :: byte) div 4 < 64" "unat x mod 4 * 16 + unat (y :: byte) div 16 < 64"
  "unat y mod 16 * 4 + unat (z :: byte) div 64 < 64" "unat z mod 64 < 64"
  "unat x mod 4 * 16 < 64" "unat y mod 16 * 4 < 64"
  using unat8_less [of x] unat8_less [of y] unat8_less [of z] by simp_all

lemma rebuild_1:
  "(word_of_nat (unat (x :: byte) div 4 * 4 + (unat x mod 4 * 16 + unat (y :: byte) div 16) div 16) :: byte) = x"
proof -
  have "unat y div 16 < 16" using unat8_less [of y] by simp
  then have "(unat x mod 4 * 16 + unat y div 16) div 16 = unat x mod 4" by simp
  then have "unat x div 4 * 4 + (unat x mod 4 * 16 + unat y div 16) div 16 = unat x" by simp
  then show ?thesis by (simp only: byte_of_unat)
qed

lemma rebuild_2:
  "(word_of_nat ((unat (x :: byte) mod 4 * 16 + unat (y :: byte) div 16) mod 16 * 16
      + (unat y mod 16 * 4 + unat (z :: byte) div 64) div 4) :: byte) = y"
proof -
  have a: "unat y div 16 < 16" using unat8_less [of y] by simp
  have b: "unat z div 64 < 4" using unat8_less [of z] by simp
  have "(unat x mod 4 * 16 + unat y div 16) mod 16 = unat y div 16" using a by simp
  moreover have "(unat y mod 16 * 4 + unat z div 64) div 4 = unat y mod 16" using b by simp
  ultimately have "(unat x mod 4 * 16 + unat y div 16) mod 16 * 16
      + (unat y mod 16 * 4 + unat z div 64) div 4 = unat y" by simp
  then show ?thesis by (simp only: byte_of_unat)
qed

lemma rebuild_3:
  "(word_of_nat ((unat (y :: byte) mod 16 * 4 + unat (z :: byte) div 64) mod 4 * 64 + unat z mod 64) :: byte) = z"
proof -
  have b: "unat z div 64 < 4" using unat8_less [of z] by simp
  have "(unat y mod 16 * 4 + unat z div 64) mod 4 = unat z div 64" using b by simp
  then have "(unat y mod 16 * 4 + unat z div 64) mod 4 * 64 + unat z mod 64 = unat z" by simp
  then show ?thesis by (simp only: byte_of_unat)
qed

lemma decode_toString: "Buffer_from_base64 (toString_base64 bytes) = bytes"
proof (induction bytes rule: toString_base64.induct)
  case 1
  then show ?case by (simp add: Buffer_from_base64_def)
next
  case (2 x)
  have "(word_of_nat (unat x div 4 * 4 + unat x mod 4 * 16 div 16) :: byte) = x"
    using rebuild_1 [of x 0] by simp
  then show ?case
    by (simp add: Buffer_from_base64_def sextets_char sextet_bounds del: base64_sextets.simps(2) of_nat_add of_nat_mult)
      (simp add: sextets_pad)
next
  case (3 x y)
  have b: "(word_of_nat ((unat x mod 4 * 16 + unat y div 16) mod 16 * 16 + unat y mod 16 * 4 div 4) :: byte) = y"
    using rebuild_2 [of x y 0] by simp
  show ?case
    using rebuild_1 [of x y] b
    by (simp add: Buffer_from_base64_def sextets_char sextet_bounds del: base64_sextets.simps(2) of_nat_add of_nat_mult)
      (simp add: sextets_pad)
next
  case (4 x y z r)
  have ih: "sextets_bytes (base64_sextets (toString_base64 r)) = r"
    using 4 by (simp add: Buffer_from_base64_def)
  show ?case
    using rebuild_1 [of x y] rebuild_2 [of x y z] rebuild_3 [of y z] ih
    by (simp add: Buffer_from_base64_def sextets_char sextet_bounds del: base64_sextets.simps(2) of_nat_add of_nat_mult)
qed

text \<open>
  C8, as stated, fails: the regular expression accepts any data after \<^verbatim>\<open>;base64,\<close> and
  the decoder is lenient, so data that is not in the encoder's own form decodes to bytes
  whose encoding is a different string. The unpadded \<^verbatim>\<open>QQ\<close> decodes to the one byte
  0x41, which encodes as \<^verbatim>\<open>QQ==\<close>.
\<close>

theorem base64_reencode_counterexample:
  "data_url_exec (str ''data:image/png;base64,QQ'') = Some (str ''image/png'', str ''QQ'')
   \<and> parseDataUrl (str ''data:image/png;base64,QQ'') = Inr ([0x41], str ''image/png'')
   \<and> toString_base64 [0x41] = str ''QQ==''
   \<and> toString_base64 (Buffer_from_base64 (str ''QQ'')) \<noteq> str ''QQ''"
proof -
  have e: "data_url_exec (str ''data:image/png;base64,QQ'') = Some (str ''image/png'', str ''QQ'')"
    by (simp add: data_url_exec_def base64_tail_def dot_def is_line_terminator_def str_def)
  have b: "Buffer_from_base64 (str ''QQ'') = [0x41]"
    by (simp add: Buffer_from_base64_def unbase64_def str_def)
  have t: "toString_base64 [0x41] = str ''QQ==''"
    by (simp add: base64_char_def str_def)
  have n: "str ''QQ=='' \<noteq> str ''QQ''"
    by (simp add: str_def)
  from e b t n show ?thesis
    by (simp add: parseDataUrl_def)
qed

text \<open>
  C8, amended. For every inline reference on which the regular expression matches and
  whose data is the padded, standard-alphabet base64 encoding of some bytes, the
  buffer \<open>parseDataUrl\<close> returns is those bytes, and encoding the buffer as base64
  reproduces the data exactly.
\<close>

theorem base64_roundtrip_canonical:
  assumes "data_url_exec ref = Some (contentType, base64)"
    and "base64 = toString_base64 bytes"
  shows "parseDataUrl ref = Inr (Buffer_from_base64 base64, contentType)
         \<and> Buffer_from_base64 base64 = bytes
         \<and> toString_base64 (Buffer_from_base64 base64) = base64"
  using assms by (simp add: parseDataUrl_def decode_toString)

theorem base64_roundtrip_canonical_witness:
  "data_url_exec (str ''data:image/png;base64,QUJD'') = Some (str ''image/png'', str ''QUJD'')
   \<and> str ''QUJD'' = toString_base64 [0x41, 0x42, 0x43]
   \<and> parseDataUrl (str ''data:image/png;base64,QUJD'') = Inr ([0x41, 0x42, 0x43], str ''image/png'')
   \<and> toString_base64 (Buffer_from_base64 (str ''QUJD'')) = str ''QUJD''"
proof -
  have t: "str ''QUJD'' = toString_base64 [0x41, 0x42, 0x43]"
    by (simp add: base64_char_def str_def)
  from base64_roundtrip_canonical [OF sample_exec t] sample_exec t
  show ?thesis by simp
qed

subsection \<open>Extension inference\<close>

text \<open>
  C4. For every content type, present or absent, \<open>guessExtFromContentType\<close> returns what
  the ordered table png, webp, jpeg (to jpg), gif gives under first-match, and jpg when
  the content type is absent or no rule matches; image/png gives png and image/jpeg
  gives jpg.
\<close>

theorem guessExt_first_match:
  "guessExtFromContentType ct = ext_by_table ct
   \<and> guessExtFromContentType None = str ''jpg''
   \<and> guessExtFromContentType (Some (str ''image/png'')) = str ''png''
   \<and> guessExtFromContentType (Some (str ''image/jpeg'')) = str ''jpg''
   \<and> (first_match ext_table c = None \<longrightarrow> guessExtFromContentType (Some c) = str ''jpg'')"
proof -
  have tbl: "guessExtFromContentType ct = ext_by_table ct"
  proof (cases ct)
    case None
    then show ?thesis by (simp add: guessExtFromContentType_def ext_by_table_def)
  next
    case (Some c)
    show ?thesis
    proof (cases "c = []")
      case True
      with Some show ?thesis
        by (simp add: guessExtFromContentType_def ext_by_table_def ext_table_def str_def)
    next
      case False
      with Some show ?thesis
        by (simp add: guessExtFromContentType_def ext_by_table_def ext_table_def)
    qed
  qed
  have none: "guessExtFromContentType None = str ''jpg''"
    by (simp add: guessExtFromContentType_def)
  have png: "guessExtFromContentType (Some (str ''image/png'')) = str ''png''"
    by (simp add: guessExtFromContentType_def str_def)
  have jpeg: "guessExtFromContentType (Some (str ''image/jpeg'')) = str ''jpg''"
    by (simp add: guessExtFromContentType_def str_def)
  have dflt: "first_match ext_table c = None \<longrightarrow> guessExtFromContentType (Some c) = str ''jpg''"
    by (simp add: guessExtFromContentType_def ext_table_def split: if_splits)
  from tbl none png jpeg dflt show ?thesis by blast
qed

theorem guessExt_first_match_witness:
  "first_match ext_table (str ''text/html'') = None
   \<and> guessExtFromContentType (Some (str ''text/html'')) = str ''jpg''
   \<and> guessExtFromContentType (Some (str ''image/webp; x=png'')) = str ''png''
   \<and> ext_by_table (Some (str ''image/webp; x=png'')) = str ''png''"
proof -
  have h: "first_match ext_table (str ''text/html'') = None"
    by (simp add: ext_table_def str_def)
  have a: "guessExtFromContentType (Some (str ''text/html'')) = str ''jpg''"
    using guessExt_first_match [of "Some (str ''text/html'')" "str ''text/html''"] h by blast
  have b: "guessExtFromContentType (Some (str ''image/webp; x=png'')) = ext_by_table (Some (str ''image/webp; x=png''))"
    using guessExt_first_match [of "Some (str ''image/webp; x=png'')" "[]"] by blast
  have c: "ext_by_table (Some (str ''image/webp; x=png'')) = str ''png''"
    by (simp add: ext_by_table_def ext_table_def str_def)
  from h a b c show ?thesis by simp
qed

end
